theory Spec2Isabelle
  imports Complex_Main "HOL-Library.AList" "HOL-Library.Multiset"
begin

section \<open>Data model (models.js: createTable, createChairBlock, createVenueElement)\<close>

text \<open>
  The entity objects of the seating-chart designer.  Coordinates and sizes are JavaScript
  numbers measured in feet (or pixels on the canvas); they are modelled as reals, so the
  rounding of IEEE doubles is not part of the model.  Identifiers, seat counts, grid
  dimensions and attendee indices are natural numbers.  The cosmetic fields \<^verbatim>\<open>name\<close> and
  \<^verbatim>\<open>color\<close> play no part in geometry, dragging or seat assignment and are left out.

  A JavaScript object used as a dictionary (\<^verbatim>\<open>assignments\<close>) is an association list with
  \<^verbatim>\<open>obj[k]\<close> read by \<^const>\<open>map_of\<close>, \<^verbatim>\<open>obj[k] = v\<close> written by \<^const>\<open>AList.update\<close> and
  \<^verbatim>\<open>delete obj[k]\<close> by \<^const>\<open>AList.delete\<close>.  A table's seat key is the seat index, a
  chair block's seat key \<^verbatim>\<open>"r-c"\<close> is the pair \<open>(r, c)\<close>.  The keys of an object are
  distinct; where a property depends on it, the theorem assumes its association list has
  distinct keys.
\<close>

datatype tableKind = Round | Rect

datatype orientation = Horizontal | Vertical

datatype spacing = Tight | Normal | Wide

text \<open>
  The fields shared by every entity (\<^verbatim>\<open>id\<close>, \<^verbatim>\<open>x\<close>, \<^verbatim>\<open>y\<close>, \<^verbatim>\<open>locked\<close>) form the base record;
  tables and chair blocks extend it with \<^verbatim>\<open>assignments\<close>.  Functions written over the
  record schemes apply to every kind that has the fields, as the duck-typed updaters of
  App.jsx do.
\<close>

record base =
  e_id :: nat
  e_x :: real
  e_y :: real
  locked :: bool

record 'k seated = base +
  assignments :: "('k \<times> nat) list"

record table = "nat seated" +
  tableType :: tableKind
  seats :: nat
  t_widthFt :: real
  t_heightFt :: real
  orientation :: orientation
  endSeats :: nat

record block = "(nat \<times> nat) seated" +
  rows :: nat
  cols :: nat
  spacing :: spacing

record venue = base +
  v_widthFt :: real
  v_heightFt :: real

text \<open>
  Every entity object carries its own \<^verbatim>\<open>type\<close> tag (\<^verbatim>\<open>'table'\<close>, \<^verbatim>\<open>'block'\<close>, \<^verbatim>\<open>'venue'\<close>).
  Wherever App.jsx passes an entity together with a separate type string, both come from
  the same hit-test result or ghost, so the pair is the tagged value below.
\<close>

datatype entity = Table table | Block block | Venue venue

section \<open>Grid snapping (App.jsx: snap, snapEntityPos)\<close>

text \<open>
  \<^verbatim>\<open>Math.round\<close> rounds to the nearest integer with ties towards plus infinity, which is
  \<^const>\<open>round\<close> of HOL (\<open>round x = \<lfloor>x + 1/2\<rfloor>\<close>).
\<close>

definition snap :: "bool \<Rightarrow> real \<Rightarrow> real \<Rightarrow> real" where
  "snap snapEnabled gridSize v =
     (if snapEnabled \<and> gridSize > 0 then of_int (round (v / gridSize)) * gridSize else v)"

definition snapEntityPos :: "bool \<Rightarrow> real \<Rightarrow> real \<Rightarrow> real \<Rightarrow> entity \<Rightarrow> real \<times> real" where
  "snapEntityPos snapEnabled gridSize rawX rawY ent =
     (if \<not> snapEnabled \<or> gridSize \<le> 0 then (rawX, rawY)
      else case ent of
        Table t \<Rightarrow>
          if tableType t = Round
          then (snap snapEnabled gridSize rawX, snap snapEnabled gridSize rawY)
          else (let w = t_widthFt t; h = t_heightFt t;
                    tlx = snap snapEnabled gridSize (rawX - w / 2);
                    tly = snap snapEnabled gridSize (rawY - h / 2)
                in (tlx + w / 2, tly + h / 2))
      | Block b \<Rightarrow> (snap snapEnabled gridSize rawX, snap snapEnabled gridSize rawY)
      | Venue e \<Rightarrow>
          (let w = v_widthFt e; h = v_heightFt e;
               tlx = snap snapEnabled gridSize (rawX - w / 2);
               tly = snap snapEnabled gridSize (rawY - h / 2)
           in (tlx + w / 2, tly + h / 2)))"

section \<open>Derived quantities (models.js)\<close>

definition getTableTotalSeats :: "table \<Rightarrow> nat" where
  "getTableTotalSeats t =
     (if tableType t = Round then seats t else seats t * 2 + endSeats t * 2)"

definition getBlockChairSpacing :: "block \<Rightarrow> real" where
  "getBlockChairSpacing b = (case spacing b of Tight \<Rightarrow> 3 / 2 | Normal \<Rightarrow> 2 | Wide \<Rightarrow> 5 / 2)"

text \<open>\<^verbatim>\<open>getBlockDimensions\<close> returns \<^verbatim>\<open>{ widthFt, heightFt }\<close>, here the pair in that order.\<close>

definition getBlockDimensions :: "block \<Rightarrow> real \<times> real" where
  "getBlockDimensions b =
     (let s = getBlockChairSpacing b in (real (cols b) * s, real (rows b) * s))"

definition buildAssignedSet :: "table list \<Rightarrow> block list \<Rightarrow> nat set" where
  "buildAssignedSet ts bs =
     set (concat (map (\<lambda>t. map snd (assignments t)) ts)) \<union>
     set (concat (map (\<lambda>b. map snd (assignments b)) bs))"

section \<open>Application state (App.jsx: the component state and the gesture refs)\<close>

text \<open>
  The undo stack holds the \<^verbatim>\<open>JSON.stringify\<close> snapshots taken by \<^verbatim>\<open>saveUndo\<close>.  The attendee
  roster (a list of name pairs) is not part of the model.
\<close>

record snapshot =
  u_tables :: "table list"
  u_chairBlocks :: "block list"
  u_venueElements :: "venue list"
  u_disabledAttendees :: "nat set"

datatype entityType = TableT | BlockT | VenueT

text \<open>One entry \<^verbatim>\<open>{ type, id, origX, origY }\<close> of \<^verbatim>\<open>dragRef.current.multiDrag\<close>.\<close>

record multiItem =
  m_type :: entityType
  m_id :: nat
  m_origX :: real
  m_origY :: real

record dragRef =
  startX :: real
  startY :: real
  d_entity :: "entity option"
  origX :: real
  origY :: real
  multiDrag :: "multiItem list option"
  hasMoved :: bool

record panRef =
  p_active :: bool
  p_startX :: real
  p_startY :: real
  p_origPanX :: real
  p_origPanY :: real
  p_hasMoved :: bool

record resizeRef =
  r_entityId :: nat
  r_corner :: nat
  r_anchorX :: real
  r_anchorY :: real
  r_origW :: real
  r_origH :: real

text \<open>
  A seat is addressed by the triple \<^verbatim>\<open>(entityType, entityId, seatKey)\<close>; the entity type
  fixes the form of the key, so the triple is one of the two constructors below.  The
  arguments \<^verbatim>\<open>(entityType, entityId, seatKeyA, seatKeyB)\<close> of \<^verbatim>\<open>swapSeats\<close> are a \<open>seatPair\<close>.
\<close>

datatype seatAddr = TableSeat nat nat | BlockSeat nat "nat \<times> nat"

datatype seatPair = TableSeats nat nat nat | BlockSeats nat "nat \<times> nat" "nat \<times> nat"

record state =
  roomWidth :: real
  roomHeight :: real
  tables :: "table list"
  chairBlocks :: "block list"
  venueElements :: "venue list"
  disabledAttendees :: "nat set"
  selectedItem :: "entity option"
  selectedItems :: "entity list"
  ghostEntity :: "entity option"
  gridSize :: real
  snapEnabled :: bool
  zoomLevel :: real
  canvasW :: real
  canvasH :: real
  panX :: real
  panY :: real
  dragging :: bool
  dragAttendee :: "nat option"
  popupDragSeat :: "seatAddr option"
  dragRef :: dragRef
  panRef :: panRef
  resizeRef :: "resizeRef option"
  undoStack :: "snapshot list"
  redoStack :: "snapshot list"
  status :: string

text \<open>The pointer event: \<^verbatim>\<open>e.clientX\<close>, \<^verbatim>\<open>e.clientY\<close> and the canvas's bounding rectangle.\<close>

record mouseEvent =
  clientX :: real
  clientY :: real
  rectLeft :: real
  rectTop :: real

definition scale :: "state \<Rightarrow> real" where
  "scale st =
     (let cw = canvasW st; ch = canvasH st in
      if cw < 10 \<or> ch < 10 then 10
      else let base = max 2 (min ((cw - 80) / roomWidth st) ((ch - 80) / roomHeight st))
           in if zoomLevel st = 100 then base else base * zoomLevel st / 100)"

definition offsetX :: "state \<Rightarrow> real" where
  "offsetX st = (canvasW st - roomWidth st * scale st) / 2 + panX st"

definition offsetY :: "state \<Rightarrow> real" where
  "offsetY st = (canvasH st - roomHeight st * scale st) / 2 + panY st"

definition pxToFt :: "state \<Rightarrow> real \<Rightarrow> real" where
  "pxToFt st px = px / scale st"

definition assigned :: "state \<Rightarrow> nat set" where
  "assigned st = buildAssignedSet (tables st) (chairBlocks st)"

text \<open>
  \<^verbatim>\<open>saveUndo\<close> pushes a snapshot of the state the handler was created with, drops the
  oldest entry beyond 50 and clears the redo stack.
\<close>

definition snapshotOf :: "state \<Rightarrow> snapshot" where
  "snapshotOf st =
     \<lparr>u_tables = tables st, u_chairBlocks = chairBlocks st,
      u_venueElements = venueElements st, u_disabledAttendees = disabledAttendees st\<rparr>"

definition saveUndo :: "state \<Rightarrow> state" where
  "saveUndo st =
     (let pushed = undoStack st @ [snapshotOf st]
      in st\<lparr>undoStack := (if length pushed > 50 then tl pushed else pushed),
            redoStack := []\<rparr>)"

section \<open>Assignment model (App.jsx)\<close>

text \<open>
  The state updaters \<^verbatim>\<open>prev => prev.map(e => e.id === entityId ? {...} : e)\<close> touch every
  entity of the collection whose id matches.  A handler reads the state it was rendered
  with and React applies its updaters in the order of the calls; the model is a function
  from the state before the handler to the state after it, threading the state through the
  updaters in that order.
\<close>

definition setSeat ::
  "nat \<Rightarrow> 'k \<Rightarrow> nat \<Rightarrow> ('k, 'a) seated_scheme list \<Rightarrow> ('k, 'a) seated_scheme list" where
  "setSeat entityId seatKey attIdx es =
     map (\<lambda>e. if e_id e = entityId
              then e\<lparr>assignments := AList.update seatKey attIdx (assignments e)\<rparr> else e) es"

definition clearSeat ::
  "nat \<Rightarrow> 'k \<Rightarrow> ('k, 'a) seated_scheme list \<Rightarrow> ('k, 'a) seated_scheme list" where
  "clearSeat entityId seatKey es =
     map (\<lambda>e. if e_id e \<noteq> entityId then e
              else e\<lparr>assignments := AList.delete seatKey (assignments e)\<rparr>) es"

definition assignAttendee :: "seatAddr \<Rightarrow> nat \<Rightarrow> state \<Rightarrow> state" where
  "assignAttendee addr attIdx st =
     (if attIdx \<in> disabledAttendees st then st
      else if attIdx \<in> assigned st then st\<lparr>status := ''Already assigned''\<rparr>
      else let st1 = saveUndo st in
        (case addr of
           TableSeat entityId seatKey \<Rightarrow>
             st1\<lparr>tables := setSeat entityId seatKey attIdx (tables st1)\<rparr>
         | BlockSeat entityId seatKey \<Rightarrow>
             st1\<lparr>chairBlocks := setSeat entityId seatKey attIdx (chairBlocks st1)\<rparr>)
        \<lparr>status := ''Assigned''\<rparr>)"

definition unassignSeat :: "seatAddr \<Rightarrow> state \<Rightarrow> state" where
  "unassignSeat addr st =
     (let st1 = saveUndo st in
        (case addr of
           TableSeat entityId seatKey \<Rightarrow> st1\<lparr>tables := clearSeat entityId seatKey (tables st1)\<rparr>
         | BlockSeat entityId seatKey \<Rightarrow>
             st1\<lparr>chairBlocks := clearSeat entityId seatKey (chairBlocks st1)\<rparr>)
        \<lparr>status := ''Unassigned''\<rparr>)"

text \<open>The body of the updater of \<^verbatim>\<open>swapSeats\<close>, on the copied assignment object \<^verbatim>\<open>newA\<close>.\<close>

definition swapAssignments :: "'k \<Rightarrow> 'k \<Rightarrow> ('k \<times> nat) list \<Rightarrow> ('k \<times> nat) list" where
  "swapAssignments seatKeyA seatKeyB newA =
     (case (map_of newA seatKeyA, map_of newA seatKeyB) of
        (Some aVal, Some bVal) \<Rightarrow> AList.update seatKeyB aVal (AList.update seatKeyA bVal newA)
      | (Some aVal, None) \<Rightarrow> AList.delete seatKeyA (AList.update seatKeyB aVal newA)
      | (None, Some bVal) \<Rightarrow> AList.delete seatKeyB (AList.update seatKeyA bVal newA)
      | (None, None) \<Rightarrow> newA)"

definition swapIn ::
  "nat \<Rightarrow> 'k \<Rightarrow> 'k \<Rightarrow> ('k, 'a) seated_scheme list \<Rightarrow> ('k, 'a) seated_scheme list" where
  "swapIn entityId seatKeyA seatKeyB es =
     map (\<lambda>e. if e_id e \<noteq> entityId then e
              else e\<lparr>assignments := swapAssignments seatKeyA seatKeyB (assignments e)\<rparr>) es"

definition swapSeats :: "seatPair \<Rightarrow> state \<Rightarrow> state" where
  "swapSeats p st =
     (case p of
        TableSeats entityId seatKeyA seatKeyB \<Rightarrow>
          if seatKeyA = seatKeyB then st
          else (let st1 = saveUndo st
                in st1\<lparr>tables := swapIn entityId seatKeyA seatKeyB (tables st1),
                       status := ''Seats swapped''\<rparr>)
      | BlockSeats entityId seatKeyA seatKeyB \<Rightarrow>
          if seatKeyA = seatKeyB then st
          else (let st1 = saveUndo st
                in st1\<lparr>chairBlocks := swapIn entityId seatKeyA seatKeyB (chairBlocks st1),
                       status := ''Seats swapped''\<rparr>))"

text \<open>
  \<^verbatim>\<open>moveSeatToSeat\<close>: the source updater records in \<^verbatim>\<open>attIdx\<close> the occupant of \<^verbatim>\<open>srcKey\<close> in the
  last entity of the source collection whose id is \<^verbatim>\<open>srcId\<close> (\<^verbatim>\<open>null\<close> when there is none,
  \<^verbatim>\<open>undefined\<close> when the seat is empty) and deletes the key; the destination is written only
  when an occupant was found.  The handler tests \<^verbatim>\<open>attIdx\<close> right after queueing the source
  updater; the model takes the updater to have run by then, as React does for the first
  updater queued on a state with no pending update.
\<close>

definition occupantOf :: "nat \<Rightarrow> 'k \<Rightarrow> ('k, 'a) seated_scheme list \<Rightarrow> nat option" where
  "occupantOf srcId srcKey es =
     (case filter (\<lambda>e. e_id e = srcId) es of
        [] \<Rightarrow> None
      | e # rest \<Rightarrow> map_of (assignments (last (e # rest))) srcKey)"

definition moveSeatToSeat :: "seatAddr \<Rightarrow> seatAddr \<Rightarrow> state \<Rightarrow> state" where
  "moveSeatToSeat src dst st =
     (let st1 = saveUndo st in
      case (src, dst) of
        (TableSeat srcId srcKey, TableSeat dstId dstKey) \<Rightarrow>
          if srcId = dstId then swapSeats (TableSeats srcId srcKey dstKey) st1
          else (let attIdx = occupantOf srcId srcKey (tables st1);
                    st2 = st1\<lparr>tables := clearSeat srcId srcKey (tables st1)\<rparr>
                in case attIdx of None \<Rightarrow> st2
                   | Some a \<Rightarrow> st2\<lparr>tables := setSeat dstId dstKey a (tables st2),
                                    status := ''Moved''\<rparr>)
      | (BlockSeat srcId srcKey, BlockSeat dstId dstKey) \<Rightarrow>
          if srcId = dstId then swapSeats (BlockSeats srcId srcKey dstKey) st1
          else (let attIdx = occupantOf srcId srcKey (chairBlocks st1);
                    st2 = st1\<lparr>chairBlocks := clearSeat srcId srcKey (chairBlocks st1)\<rparr>
                in case attIdx of None \<Rightarrow> st2
                   | Some a \<Rightarrow> st2\<lparr>chairBlocks := setSeat dstId dstKey a (chairBlocks st2),
                                    status := ''Moved''\<rparr>)
      | (TableSeat srcId srcKey, BlockSeat dstId dstKey) \<Rightarrow>
          (let attIdx = occupantOf srcId srcKey (tables st1);
               st2 = st1\<lparr>tables := clearSeat srcId srcKey (tables st1)\<rparr>
           in case attIdx of None \<Rightarrow> st2
              | Some a \<Rightarrow> st2\<lparr>chairBlocks := setSeat dstId dstKey a (chairBlocks st2),
                               status := ''Moved''\<rparr>)
      | (BlockSeat srcId srcKey, TableSeat dstId dstKey) \<Rightarrow>
          (let attIdx = occupantOf srcId srcKey (chairBlocks st1);
               st2 = st1\<lparr>chairBlocks := clearSeat srcId srcKey (chairBlocks st1)\<rparr>
           in case attIdx of None \<Rightarrow> st2
              | Some a \<Rightarrow> st2\<lparr>tables := setSeat dstId dstKey a (tables st2),
                               status := ''Moved''\<rparr>))"

definition forceAssignSeat :: "seatAddr \<Rightarrow> nat \<Rightarrow> state \<Rightarrow> state" where
  "forceAssignSeat addr attIdx st =
     (if attIdx \<in> disabledAttendees st then st
      else let st1 = saveUndo st in
        (case addr of
           TableSeat entityId seatKey \<Rightarrow>
             st1\<lparr>tables := setSeat entityId seatKey attIdx (tables st1)\<rparr>
         | BlockSeat entityId seatKey \<Rightarrow>
             st1\<lparr>chairBlocks := setSeat entityId seatKey attIdx (chairBlocks st1)\<rparr>)
        \<lparr>status := ''Assigned''\<rparr>)"

text \<open>
  \<^verbatim>\<open>assignNextAvailable\<close>: the first seat key of the entity, in seat order, that is not a key
  of its assignments.  As in the source, any entity type other than \<^verbatim>\<open>'table'\<close> is looked up
  among the chair blocks.
\<close>

definition blockSeatKeys :: "block \<Rightarrow> (nat \<times> nat) list" where
  "blockSeatKeys b = concat (map (\<lambda>r. map (\<lambda>c. (r, c)) [0..<cols b]) [0..<rows b])"

definition assignNextAvailable :: "entityType \<Rightarrow> nat \<Rightarrow> nat \<Rightarrow> state \<Rightarrow> state" where
  "assignNextAvailable entityType entityId attIdx st =
     (if attIdx \<in> disabledAttendees st then st
      else if attIdx \<in> assigned st then st
      else if entityType = TableT then
        (case find (\<lambda>t. e_id t = entityId) (tables st) of
           None \<Rightarrow> st
         | Some ent \<Rightarrow>
             (case find (\<lambda>k. map_of (assignments ent) k = None) [0..<getTableTotalSeats ent] of
                None \<Rightarrow> st\<lparr>status := ''Table full''\<rparr>
              | Some openKey \<Rightarrow> forceAssignSeat (TableSeat entityId openKey) attIdx st))
      else
        (case find (\<lambda>b. e_id b = entityId) (chairBlocks st) of
           None \<Rightarrow> st
         | Some ent \<Rightarrow>
             (case find (\<lambda>k. map_of (assignments ent) k = None) (blockSeatKeys ent) of
                None \<Rightarrow> st\<lparr>status := ''Table full''\<rparr>
              | Some openKey \<Rightarrow> forceAssignSeat (BlockSeat entityId openKey) attIdx st)))"




text \<open>
  The list of all \<^verbatim>\<open>(entity, seatKey)\<close> pairs with their occupants, over all tables and
  chair blocks, and the exclusivity invariant: no attendee index is the occupant of two
  entries.
\<close>

definition seatPairs :: "state \<Rightarrow> (seatAddr \<times> nat) list" where
  "seatPairs st =
     concat (map (\<lambda>t. map (\<lambda>(k, v). (TableSeat (e_id t) k, v)) (assignments t)) (tables st)) @
     concat (map (\<lambda>b. map (\<lambda>(k, v). (BlockSeat (e_id b) k, v)) (assignments b)) (chairBlocks st))"


definition distinctIds :: "state \<Rightarrow> bool" where
  "distinctIds st =
     (distinct (map e_id (tables st)) \<and> distinct (map e_id (chairBlocks st)))"


definition vals :: "('k \<times> nat) list \<Rightarrow> nat multiset" where
  "vals al = mset (map snd al)"

section \<open>Rotation (App.jsx: rotateSelected)\<close>

text \<open>
  \<^verbatim>\<open>Object.entries\<close> enumerates the integer keys of a table's assignments in ascending
  order, and the \<^verbatim>\<open>"r-c"\<close> keys of a chair block in insertion order.
\<close>

definition entriesAscending :: "(nat \<times> nat) list \<Rightarrow> (nat \<times> nat) list" where
  "entriesAscending al = sort_key fst al"

text \<open>The object \<^verbatim>\<open>newAssign\<close> built by the round-table branch from the selected \<^verbatim>\<open>item\<close>.\<close>

definition seatsNewAssign :: "table \<Rightarrow> (nat \<times> nat) list" where
  "seatsNewAssign item =
     (let total = seats item;
          shift = (if total \<ge> 4 then total div 4 else 1)
      in foldl (\<lambda>newAssign (k, v). AList.update ((k + shift) mod total) v newAssign) []
           (entriesAscending (assignments item)))"

text \<open>
  What the round-table branch does to a table \<open>t\<close> whose id is that of \<^verbatim>\<open>item\<close>: nothing
  unless \<^verbatim>\<open>item\<close> has seats and assignments, else its assignments are replaced.
\<close>

definition rotateSeats :: "table \<Rightarrow> table \<Rightarrow> table" where
  "rotateSeats item t =
     (if seats item > 0 \<and> assignments item \<noteq> []
      then t\<lparr>assignments := seatsNewAssign item\<rparr> else t)"

text \<open>
  The object \<^verbatim>\<open>newAssign\<close> built by the chair-block branch.  \<^verbatim>\<open>oldRows - 1 - r\<close> can be
  negative, so the remapped coordinates are integers.
\<close>

definition blockNewAssign :: "block \<Rightarrow> ((nat \<times> nat) \<times> nat) list" where
  "blockNewAssign item =
     (let oldRows = int (rows item); oldCols = int (cols item)
      in foldl (\<lambda>newAssign ((r, c), att).
                  let nr = int c; nc = oldRows - 1 - int r
                  in if nr \<ge> 0 \<and> nr < oldCols \<and> nc \<ge> 0 \<and> nc < oldRows
                     then AList.update (nat nr, nat nc) att newAssign else newAssign)
           [] (assignments item))"

definition rotateBlock :: "block \<Rightarrow> block \<Rightarrow> block" where
  "rotateBlock item b = b\<lparr>assignments := blockNewAssign item, rows := cols item, cols := rows item\<rparr>"

text \<open>
  \<^verbatim>\<open>rotateSelected\<close> takes \<^verbatim>\<open>item\<close> from \<^verbatim>\<open>selectedItem\<close>, the entity value stored when the
  selection was made; it does not store the rotated entity back into \<^verbatim>\<open>selectedItem\<close>.
\<close>

definition rotateSelected :: "state \<Rightarrow> state" where
  "rotateSelected st =
     (case selectedItem st of
        None \<Rightarrow> st
      | Some sel \<Rightarrow>
          let st1 = saveUndo st in
          (case sel of
             Table item \<Rightarrow>
               if tableType item = Rect then
                 st1\<lparr>tables :=
                        map (\<lambda>t. if e_id t = e_id item
                                 then t\<lparr>t_widthFt := t_heightFt t, t_heightFt := t_widthFt t,
                                        orientation := (if orientation t = Horizontal
                                                        then Vertical else Horizontal)\<rparr>
                                 else t) (tables st1),
                      status := ''Table rotated''\<rparr>
               else
                 st1\<lparr>tables :=
                        map (\<lambda>t. if e_id t = e_id item then rotateSeats item t else t) (tables st1),
                      status := ''Seats rotated''\<rparr>
           | Block item \<Rightarrow>
               st1\<lparr>chairBlocks :=
                      map (\<lambda>b. if e_id b = e_id item then rotateBlock item b else b)
                        (chairBlocks st1),
                    status := ''Block rotated''\<rparr>
           | Venue item \<Rightarrow>
               st1\<lparr>venueElements :=
                      map (\<lambda>e. if e_id e = e_id item
                               then e\<lparr>v_widthFt := v_heightFt e, v_heightFt := v_widthFt e\<rparr>
                               else e) (venueElements st1),
                    status := ''Element rotated''\<rparr>))"

text \<open>Every assigned seat key is a seat of the entity: an index below \<^verbatim>\<open>seats\<close>, a cell of the
  \<^verbatim>\<open>rows\<close> by \<^verbatim>\<open>cols\<close> grid.\<close>

definition tableKeysValid :: "table \<Rightarrow> bool" where
  "tableKeysValid t = list_all (\<lambda>(k, v). k < seats t) (assignments t)"

definition blockKeysValid :: "block \<Rightarrow> bool" where
  "blockKeysValid b = list_all (\<lambda>((r, c), v). r < rows b \<and> c < cols b) (assignments b)"

section \<open>Seat geometry and hit testing (canvasRenderer.js)\<close>

text \<open>
  The centre \<^verbatim>\<open>(sx, sy)\<close> of seat \<open>i\<close> of a round table, in canvas pixels, as computed by the
  seat loops of \<^verbatim>\<open>drawTable\<close> and \<^verbatim>\<open>seatHitTest\<close>; the canvas y axis points down.
\<close>

definition seatRingRadius :: "state \<Rightarrow> table \<Rightarrow> real" where
  "seatRingRadius st t =
     (let r = (t_widthFt t * scale st) / 2;
          sr = 3 / 4 * scale st;
          seatGap = max 3 (scale st * (1 / 5))
      in r + sr + seatGap)"

definition roundSeatPos :: "state \<Rightarrow> table \<Rightarrow> nat \<Rightarrow> real \<times> real" where
  "roundSeatPos st t i =
     (let cx = offsetX st + e_x t * scale st;
          cy = offsetY st + e_y t * scale st;
          a = (2 * pi * real i / real (seats t)) - pi / 2;
          d = seatRingRadius st t
      in (cx + d * cos a, cy + d * sin a))"

definition roundSeatPositions :: "state \<Rightarrow> table \<Rightarrow> (real \<times> real) list" where
  "roundSeatPositions st t = map (roundSeatPos st t) [0..<seats t]"

definition hypot :: "real \<Rightarrow> real \<Rightarrow> real" where
  "hypot a b = sqrt (a * a + b * b)"

definition spread :: "real \<Rightarrow> real \<Rightarrow> nat \<Rightarrow> real \<Rightarrow> real list" where
  "spread sr gap n halfLen =
     (if n \<le> 0 then []
      else if n = 1 then [0]
      else let pad = min (sr + gap * (7 / 10)) (halfLen * (1 / 4));
               span = 2 * halfLen - 2 * pad
           in map (\<lambda>i. - halfLen + pad + real i * span / real (n - 1)) [0..<n])"

definition getRectSeatPositions :: "table \<Rightarrow> real \<Rightarrow> (real \<times> real) list" where
  "getRectSeatPositions t sc =
     (let hw = (t_widthFt t * sc) / 2;
          hh = (t_heightFt t * sc) / 2;
          sr = 3 / 4 * sc;
          gap = max 3 (sc * (1 / 5))
      in if orientation t = Horizontal then
           concat (map (\<lambda>dx. [(dx, - hh - sr - gap), (dx, hh + sr + gap)])
                     (spread sr gap (seats t) hw)) @
           concat (map (\<lambda>dy. [(- hw - sr - gap, dy), (hw + sr + gap, dy)])
                     (spread sr gap (endSeats t) hh))
         else
           concat (map (\<lambda>dy. [(- hw - sr - gap, dy), (hw + sr + gap, dy)])
                     (spread sr gap (seats t) hh)) @
           concat (map (\<lambda>dx. [(dx, - hh - sr - gap), (dx, hh + sr + gap)])
                     (spread sr gap (endSeats t) hw)))"

text \<open>\<^verbatim>\<open>hitTest\<close>: the topmost entity under the canvas point, tables before blocks before venue
  elements, each collection searched from its last element.\<close>

definition tableHit :: "real \<Rightarrow> real \<Rightarrow> state \<Rightarrow> table \<Rightarrow> bool" where
  "tableHit x y st t =
     (let cx = offsetX st + e_x t * scale st;
          cy = offsetY st + e_y t * scale st
      in if tableType t = Round then
           hypot (x - cx) (y - cy) < (t_widthFt t * scale st) / 2 + 3 / 4 * scale st + 5
         else
           (let hw = (t_widthFt t * scale st) / 2 + 3 / 4 * scale st + 5;
                hh = (t_heightFt t * scale st) / 2 + 3 / 4 * scale st + 5
            in x \<ge> cx - hw \<and> x \<le> cx + hw \<and> y \<ge> cy - hh \<and> y \<le> cy + hh))"

definition blockHit :: "real \<Rightarrow> real \<Rightarrow> state \<Rightarrow> block \<Rightarrow> bool" where
  "blockHit x y st b =
     (let bx = offsetX st + e_x b * scale st;
          by = offsetY st + e_y b * scale st;
          bw = fst (getBlockDimensions b) * scale st;
          bh = snd (getBlockDimensions b) * scale st
      in x \<ge> bx - 5 \<and> x \<le> bx + bw + 5 \<and> y \<ge> by - 15 \<and> y \<le> by + bh + 5)"

definition venueHit :: "real \<Rightarrow> real \<Rightarrow> state \<Rightarrow> venue \<Rightarrow> bool" where
  "venueHit x y st e =
     (let ex = offsetX st + e_x e * scale st;
          ey = offsetY st + e_y e * scale st;
          hw = (v_widthFt e * scale st) / 2;
          hh = (v_heightFt e * scale st) / 2
      in x \<ge> ex - hw \<and> x \<le> ex + hw \<and> y \<ge> ey - hh \<and> y \<le> ey + hh)"

definition hitTest :: "real \<Rightarrow> real \<Rightarrow> state \<Rightarrow> entity option" where
  "hitTest x y st =
     (case find (tableHit x y st) (rev (tables st)) of
        Some t \<Rightarrow> Some (Table t)
      | None \<Rightarrow>
          (case find (blockHit x y st) (rev (chairBlocks st)) of
             Some b \<Rightarrow> Some (Block b)
           | None \<Rightarrow>
               (case find (venueHit x y st) (rev (venueElements st)) of
                  Some e \<Rightarrow> Some (Venue e)
                | None \<Rightarrow> None)))"

text \<open>\<^verbatim>\<open>seatHitTest\<close> returns \<^verbatim>\<open>{ entityType, entity, seatKey }\<close> for the first seat found.\<close>

datatype seatHit = TableSeatHit table nat | BlockSeatHit block "nat \<times> nat"

definition tableSeatAt :: "real \<Rightarrow> real \<Rightarrow> state \<Rightarrow> table \<Rightarrow> nat option" where
  "tableSeatAt x y st t =
     (let cx = offsetX st + e_x t * scale st;
          cy = offsetY st + e_y t * scale st;
          sr = 3 / 4 * scale st
      in if tableType t = Round then
           find (\<lambda>si. hypot (x - fst (roundSeatPos st t si)) (y - snd (roundSeatPos st t si)) < sr + 2)
             [0..<seats t]
         else
           (let positions = getRectSeatPositions t (scale st);
                total = getTableTotalSeats t
            in find (\<lambda>si. hypot (x - (cx + fst (positions ! si))) (y - (cy + snd (positions ! si)))
                             < sr + 2)
                 [0..<min (length positions) total]))"

definition blockSeatAt :: "real \<Rightarrow> real \<Rightarrow> state \<Rightarrow> block \<Rightarrow> (nat \<times> nat) option" where
  "blockSeatAt x y st b =
     (let bx = offsetX st + e_x b * scale st;
          by = offsetY st + e_y b * scale st;
          cs = getBlockChairSpacing b * scale st;
          chairSize = 6 / 5 * scale st
      in find (\<lambda>(r, c). \<bar>x - (bx + (real c + 1 / 2) * cs)\<bar> < chairSize / 2 + 2 \<and>
                         \<bar>y - (by + (real r + 1 / 2) * cs)\<bar> < chairSize / 2 + 2)
           (blockSeatKeys b))"

fun firstSeat :: "('a \<Rightarrow> 'b option) \<Rightarrow> 'a list \<Rightarrow> ('a \<times> 'b) option" where
  "firstSeat f [] = None"
| "firstSeat f (e # es) = (case f e of Some k \<Rightarrow> Some (e, k) | None \<Rightarrow> firstSeat f es)"

definition seatHitTest :: "real \<Rightarrow> real \<Rightarrow> state \<Rightarrow> seatHit option" where
  "seatHitTest x y st =
     (case firstSeat (tableSeatAt x y st) (rev (tables st)) of
        Some (t, si) \<Rightarrow> Some (TableSeatHit t si)
      | None \<Rightarrow>
          (case firstSeat (blockSeatAt x y st) (rev (chairBlocks st)) of
             Some (b, k) \<Rightarrow> Some (BlockSeatHit b k)
           | None \<Rightarrow> None))"

section \<open>Pointer gestures (App.jsx: handleCanvasMouseMove, handleCanvasMouseUp)\<close>

text \<open>
  The handlers also set display-only state (the smart-guide lines, the drag ghost
  position), which no entity, assignment or undo snapshot depends on; it is not part of
  the model.
\<close>

definition lockedOf :: "entity \<Rightarrow> bool" where
  "lockedOf ent = (case ent of Table t \<Rightarrow> locked t | Block b \<Rightarrow> locked b | Venue e \<Rightarrow> locked e)"

text \<open>\<^verbatim>\<open>{ ...prev, x, y }\<close> on the ghost entity.\<close>

definition setPos :: "real \<Rightarrow> real \<Rightarrow> entity \<Rightarrow> entity" where
  "setPos nx ny ent =
     (case ent of
        Table t \<Rightarrow> Table (t\<lparr>e_x := nx, e_y := ny\<rparr>)
      | Block b \<Rightarrow> Block (b\<lparr>e_x := nx, e_y := ny\<rparr>)
      | Venue e \<Rightarrow> Venue (e\<lparr>e_x := nx, e_y := ny\<rparr>))"

text \<open>\<^verbatim>\<open>prev.map(t => t.id === item.id ? { ...t, x, y } : t)\<close>.\<close>

definition moveTo :: "nat \<Rightarrow> real \<Rightarrow> real \<Rightarrow> 'a base_scheme list \<Rightarrow> 'a base_scheme list" where
  "moveTo entityId nx ny es =
     map (\<lambda>e. if e_id e = entityId then e\<lparr>e_x := nx, e_y := ny\<rparr> else e) es"

text \<open>
  The three \<^verbatim>\<open>Map\<close>s of the multi-drag branch (\<^verbatim>\<open>tableUpdates\<close>, \<^verbatim>\<open>blockUpdates\<close>,
  \<^verbatim>\<open>venueUpdates\<close>): every item of the multi-selection is entered under its id with its
  clamped new position, a later item replacing an earlier one of the same id.
\<close>

definition updatesFor ::
  "entityType \<Rightarrow> real \<Rightarrow> real \<Rightarrow> real \<Rightarrow> real \<Rightarrow> multiItem list \<Rightarrow> (nat \<times> real \<times> real) list" where
  "updatesFor ty roomW roomH dx dy items =
     foldl (\<lambda>m item.
              let newX = max 0 (min roomW (m_origX item + dx));
                  newY = max 0 (min roomH (m_origY item + dy))
              in if m_type item = ty then AList.update (m_id item) (newX, newY) m else m)
       [] items"

definition applyUpdates ::
  "(nat \<times> real \<times> real) list \<Rightarrow> 'a base_scheme list \<Rightarrow> 'a base_scheme list" where
  "applyUpdates ups es =
     map (\<lambda>e. case map_of ups (e_id e) of
                 Some (nx, ny) \<Rightarrow> e\<lparr>e_x := nx, e_y := ny\<rparr>
               | None \<Rightarrow> e) es"

text \<open>
  The threshold step shared by both drag branches: the first move whose displacement
  exceeds 0.5 ft on an axis sets \<^verbatim>\<open>hasMoved\<close> and calls \<^verbatim>\<open>saveUndo\<close>.
\<close>

definition crossThreshold :: "real \<Rightarrow> real \<Rightarrow> state \<Rightarrow> state" where
  "crossThreshold dx dy st =
     (if \<not> hasMoved (dragRef st) \<and> (\<bar>dx\<bar> > 1 / 2 \<or> \<bar>dy\<bar> > 1 / 2)
      then (saveUndo st)\<lparr>dragRef := (dragRef st)\<lparr>hasMoved := True\<rparr>\<rparr>
      else st)"

definition multiDragMove :: "real \<Rightarrow> real \<Rightarrow> multiItem list \<Rightarrow> state \<Rightarrow> state" where
  "multiDragMove x y items st =
     (let dx = pxToFt st (x - startX (dragRef st));
          dy = pxToFt st (y - startY (dragRef st));
          st1 = crossThreshold dx dy st
      in if hasMoved (dragRef st1) then
           st1\<lparr>tables :=
                  applyUpdates (updatesFor TableT (roomWidth st) (roomHeight st) dx dy items)
                    (tables st1),
                chairBlocks :=
                  applyUpdates (updatesFor BlockT (roomWidth st) (roomHeight st) dx dy items)
                    (chairBlocks st1),
                venueElements :=
                  applyUpdates (updatesFor VenueT (roomWidth st) (roomHeight st) dx dy items)
                    (venueElements st1)\<rparr>
         else st1)"

text \<open>
  The single-entity branch.  The type string read from \<^verbatim>\<open>selectedItem\<close> is the tag of the
  dragged entity: both were set from the same hit at pointer-down.
\<close>

definition singleDragMove :: "real \<Rightarrow> real \<Rightarrow> entity \<Rightarrow> state \<Rightarrow> state" where
  "singleDragMove x y item st =
     (if lockedOf item then st
      else
        let dx = pxToFt st (x - startX (dragRef st));
            dy = pxToFt st (y - startY (dragRef st));
            st1 = crossThreshold dx dy st
        in if hasMoved (dragRef st1) then
             (let rawX = max 0 (min (roomWidth st) (origX (dragRef st) + dx));
                  rawY = max 0 (min (roomHeight st) (origY (dragRef st) + dy));
                  snapped = snapEntityPos (snapEnabled st) (gridSize st) rawX rawY item
              in case item of
                   Table t \<Rightarrow>
                     st1\<lparr>tables := moveTo (e_id t) (fst snapped) (snd snapped) (tables st1)\<rparr>
                 | Block b \<Rightarrow>
                     st1\<lparr>chairBlocks :=
                            moveTo (e_id b) (fst snapped) (snd snapped) (chairBlocks st1)\<rparr>
                 | Venue e \<Rightarrow>
                     st1\<lparr>venueElements :=
                            moveTo (e_id e) (fst snapped) (snd snapped) (venueElements st1)\<rparr>)
           else st1)"

definition resizeMove :: "real \<Rightarrow> real \<Rightarrow> resizeRef \<Rightarrow> state \<Rightarrow> state" where
  "resizeMove x y rr st =
     (let worldX = pxToFt st (x - offsetX st);
          worldY = pxToFt st (y - offsetY st);
          w0 = max 2 \<bar>worldX - r_anchorX rr\<bar>;
          h0 = max 2 \<bar>worldY - r_anchorY rr\<bar>;
          newW = (if snapEnabled st \<and> gridSize st > 0
                  then max 2 (of_int (round (w0 / gridSize st)) * gridSize st) else w0);
          newH = (if snapEnabled st \<and> gridSize st > 0
                  then max 2 (of_int (round (h0 / gridSize st)) * gridSize st) else h0);
          newCx = r_anchorX rr + (if worldX \<ge> r_anchorX rr then newW / 2 else - newW / 2);
          newCy = r_anchorY rr + (if worldY \<ge> r_anchorY rr then newH / 2 else - newH / 2)
      in st\<lparr>venueElements :=
               map (\<lambda>v. if e_id v = r_entityId rr
                        then v\<lparr>e_x := newCx, e_y := newCy, v_widthFt := newW, v_heightFt := newH\<rparr>
                        else v) (venueElements st)\<rparr>)"

definition panMove :: "mouseEvent \<Rightarrow> state \<Rightarrow> state" where
  "panMove ev st =
     (let dx = clientX ev - p_startX (panRef st);
          dy = clientY ev - p_startY (panRef st);
          moved = (p_hasMoved (panRef st) \<or> \<bar>dx\<bar> > 3 \<or> \<bar>dy\<bar> > 3);
          st1 = st\<lparr>panRef := (panRef st)\<lparr>p_hasMoved := moved\<rparr>\<rparr>
      in if moved
         then st1\<lparr>panX := p_origPanX (panRef st) + dx, panY := p_origPanY (panRef st) + dy\<rparr>
         else st1)"

definition handleCanvasMouseMove :: "mouseEvent \<Rightarrow> state \<Rightarrow> state" where
  "handleCanvasMouseMove ev st =
     (let x = clientX ev - rectLeft ev;
          y = clientY ev - rectTop ev
      in case ghostEntity st of
           Some ghost \<Rightarrow>
             (let snapped = snapEntityPos (snapEnabled st) (gridSize st)
                              (pxToFt st (x - offsetX st)) (pxToFt st (y - offsetY st)) ghost
              in st\<lparr>ghostEntity := Some (setPos (fst snapped) (snd snapped) ghost)\<rparr>)
         | None \<Rightarrow>
             if p_active (panRef st) then panMove ev st
             else (case resizeRef st of
                     Some rr \<Rightarrow> resizeMove x y rr st
                   | None \<Rightarrow>
                       (case (dragging st, multiDrag (dragRef st)) of
                          (True, Some items) \<Rightarrow> multiDragMove x y items st
                        | _ \<Rightarrow>
                            (case (dragging st, d_entity (dragRef st), selectedItem st) of
                               (True, Some item, Some sel) \<Rightarrow> singleDragMove x y item st
                             | _ \<Rightarrow> st))))"

definition resetDragRef :: dragRef where
  "resetDragRef =
     \<lparr>startX = 0, startY = 0, d_entity = None, origX = 0, origY = 0, multiDrag = None,
      hasMoved = False\<rparr>"

definition resetPanRef :: panRef where
  "resetPanRef =
     \<lparr>p_active = False, p_startX = 0, p_startY = 0, p_origPanX = 0, p_origPanY = 0,
      p_hasMoved = False\<rparr>"

text \<open>
  Releasing a dragged attendee over the canvas: \<^verbatim>\<open>assignAttendee\<close> on the seat under the
  pointer when that seat key is not in the hit entity's assignments, otherwise
  \<^verbatim>\<open>assignNextAvailable\<close> on the table or block under the pointer.
\<close>

definition dropAttendee :: "real \<Rightarrow> real \<Rightarrow> nat \<Rightarrow> state \<Rightarrow> state" where
  "dropAttendee x y att st =
     (let fallback =
            (case hitTest x y st of
               Some (Table t) \<Rightarrow> assignNextAvailable TableT (e_id t) att st
             | Some (Block b) \<Rightarrow> assignNextAvailable BlockT (e_id b) att st
             | _ \<Rightarrow> st)
      in case seatHitTest x y st of
           Some (TableSeatHit t seatKey) \<Rightarrow>
             if map_of (assignments t) seatKey = None
             then assignAttendee (TableSeat (e_id t) seatKey) att st else fallback
         | Some (BlockSeatHit b seatKey) \<Rightarrow>
             if map_of (assignments b) seatKey = None
             then assignAttendee (BlockSeat (e_id b) seatKey) att st else fallback
         | None \<Rightarrow> fallback)"

definition dropPopupSeat :: "real \<Rightarrow> real \<Rightarrow> seatAddr \<Rightarrow> state \<Rightarrow> state" where
  "dropPopupSeat x y src st =
     (case seatHitTest x y st of
        Some (TableSeatHit t seatKey) \<Rightarrow>
          if map_of (assignments t) seatKey = None
          then moveSeatToSeat src (TableSeat (e_id t) seatKey) st else st
      | Some (BlockSeatHit b seatKey) \<Rightarrow>
          if map_of (assignments b) seatKey = None
          then moveSeatToSeat src (BlockSeat (e_id b) seatKey) st else st
      | None \<Rightarrow> st)"

definition handleCanvasMouseUp :: "mouseEvent \<Rightarrow> state \<Rightarrow> state" where
  "handleCanvasMouseUp ev st =
     (let x = clientX ev - rectLeft ev;
          y = clientY ev - rectTop ev
      in if p_active (panRef st) then
           (let st1 = st\<lparr>panRef := resetPanRef, dragging := False\<rparr>
            in if \<not> p_hasMoved (panRef st)
               then st1\<lparr>selectedItem := None, selectedItems := []\<rparr> else st1)
         else (case dragAttendee st of
                 Some att \<Rightarrow> (dropAttendee x y att st)\<lparr>dragAttendee := None, dragging := False\<rparr>
               | None \<Rightarrow>
                   (case popupDragSeat st of
                      Some src \<Rightarrow>
                        (dropPopupSeat x y src st)\<lparr>popupDragSeat := None, dragging := False\<rparr>
                    | None \<Rightarrow>
                        st\<lparr>dragging := False, resizeRef := None, dragRef := resetDragRef\<rparr>)))"

text \<open>
  The pointer moves of one gesture, handled in order, and the displacement test the drag
  branches apply to a pointer position.
\<close>

definition moves :: "mouseEvent list \<Rightarrow> state \<Rightarrow> state" where
  "moves evs st = foldl (\<lambda>s ev. handleCanvasMouseMove ev s) st evs"

definition withinThreshold :: "state \<Rightarrow> mouseEvent \<Rightarrow> bool" where
  "withinThreshold st ev =
     (\<bar>pxToFt st (clientX ev - rectLeft ev - startX (dragRef st))\<bar> \<le> 1 / 2 \<and>
      \<bar>pxToFt st (clientY ev - rectTop ev - startY (dragRef st))\<bar> \<le> 1 / 2)"

text \<open>
  The states pointer-down leaves for an entity drag: no ghost, pan or resize is active,
  \<^verbatim>\<open>dragging\<close> is set, \<^verbatim>\<open>hasMoved\<close> is false, and \<^verbatim>\<open>dragRef\<close> holds either the multi-selection
  or the hit entity, which is also the selected item.
\<close>

definition multiDragStart :: "state \<Rightarrow> bool" where
  "multiDragStart st =
     (ghostEntity st = None \<and> \<not> p_active (panRef st) \<and> resizeRef st = None \<and> dragging st \<and>
      \<not> hasMoved (dragRef st) \<and> multiDrag (dragRef st) \<noteq> None)"

definition singleDragStart :: "state \<Rightarrow> bool" where
  "singleDragStart st =
     (ghostEntity st = None \<and> \<not> p_active (panRef st) \<and> resizeRef st = None \<and> dragging st \<and>
      \<not> hasMoved (dragRef st) \<and> multiDrag (dragRef st) = None \<and>
      d_entity (dragRef st) \<noteq> None \<and> selectedItem st = d_entity (dragRef st))"

text \<open>
  An entity drag as pointer-down starts it: a multi-selection drag, or the drag of a single
  entity that is not locked.  \<open>dragMoving\<close> holds once the threshold has been crossed.
\<close>

definition dragStart :: "state \<Rightarrow> bool" where
  "dragStart st =
     (multiDragStart st \<or>
      (singleDragStart st \<and>
       (case d_entity (dragRef st) of Some item \<Rightarrow> \<not> lockedOf item | None \<Rightarrow> False)))"

definition dragMoving :: "state \<Rightarrow> bool" where
  "dragMoving st =
     (ghostEntity st = None \<and> \<not> p_active (panRef st) \<and> resizeRef st = None \<and> dragging st \<and>
      hasMoved (dragRef st))"

section \<open>Example layouts\<close>

text \<open>
  A 60 ft by 40 ft room on a 680 by 480 pixel canvas (10 pixels per foot, room origin at
  pixel (40, 40)) with two round tables, the second one locked, a chair block and a venue
  element.  The theorems below are instantiated on these values.
\<close>

definition tableA :: table where
  "tableA =
     \<lparr>e_id = 1, e_x = 10, e_y = 10, locked = False, assignments = [(0, 3)],
      tableType = Round, seats = 8, t_widthFt = 5, t_heightFt = 5,
      orientation = Horizontal, endSeats = 0\<rparr>"

definition tableL :: table where
  "tableL =
     \<lparr>e_id = 2, e_x = 20, e_y = 10, locked = True, assignments = [],
      tableType = Round, seats = 8, t_widthFt = 5, t_heightFt = 5,
      orientation = Horizontal, endSeats = 0\<rparr>"

definition blockA :: block where
  "blockA =
     \<lparr>e_id = 1, e_x = 30, e_y = 20, locked = False, assignments = [((0, 0), 4)],
      rows = 2, cols = 3, spacing = Normal\<rparr>"

definition venueA :: venue where
  "venueA = \<lparr>e_id = 1, e_x = 45, e_y = 30, locked = False, v_widthFt = 15, v_heightFt = 15\<rparr>"

definition stateA :: state where
  "stateA =
     \<lparr>roomWidth = 60, roomHeight = 40, tables = [tableA, tableL], chairBlocks = [blockA],
      venueElements = [venueA], disabledAttendees = {}, selectedItem = None,
      selectedItems = [], ghostEntity = None, gridSize = 1, snapEnabled = True,
      zoomLevel = 100, canvasW = 680, canvasH = 480, panX = 0, panY = 0, dragging = False,
      dragAttendee = None, popupDragSeat = None, dragRef = resetDragRef,
      panRef = resetPanRef, resizeRef = None, undoStack = [], redoStack = [],
      status = ''Ready''\<rparr>"


text \<open>
  Selections on the example layout.  \<open>staleSelectionA\<close>: table 1 was selected while it was
  empty and attendee 3 was seated on its seat 0 afterwards.  \<open>staleSelectionB\<close>: table 1
  was selected while it held attendee 3 on seat 0 and attendee 5 was seated on seat 1
  afterwards.  \<open>blockSelectionA\<close>: the chair block has just been selected.
\<close>

definition staleSelectionA :: state where
  "staleSelectionA = stateA\<lparr>selectedItem := Some (Table (tableA\<lparr>assignments := []\<rparr>))\<rparr>"

definition staleSelectionB :: state where
  "staleSelectionB =
     stateA\<lparr>tables := [tableA\<lparr>assignments := [(0, 3), (1, 5)]\<rparr>, tableL],
            selectedItem := Some (Table tableA)\<rparr>"

definition blockSelectionA :: state where
  "blockSelectionA = stateA\<lparr>selectedItem := Some (Block blockA)\<rparr>"




text \<open>
  Gestures on the example layout.  \<open>dragStateA\<close>: pointer-down on table 1 at its centre,
  pixel (140, 140).  \<open>lockedDragStateA\<close>: pointer-down on the locked table 2 at pixel
  (240, 140).  \<open>multiDragStateA\<close>: pointer-down on table 1 while tables 1 and 2 form the
  multi-selection.  The pointer then moves 3 pixels (0.3 ft), 10 pixels (1 ft) or 20 pixels
  (2 ft) to the right.
\<close>

definition dragStateA :: state where
  "dragStateA =
     stateA\<lparr>selectedItem := Some (Table tableA), dragging := True,
            dragRef := \<lparr>startX = 140, startY = 140, d_entity = Some (Table tableA),
                        origX = 10, origY = 10, multiDrag = None, hasMoved = False\<rparr>\<rparr>"

definition lockedDragStateA :: state where
  "lockedDragStateA =
     stateA\<lparr>selectedItem := Some (Table tableL), dragging := True,
            dragRef := \<lparr>startX = 240, startY = 140, d_entity = Some (Table tableL),
                        origX = 20, origY = 10, multiDrag = None, hasMoved = False\<rparr>\<rparr>"

definition multiDragStateA :: state where
  "multiDragStateA =
     stateA\<lparr>selectedItems := [Table tableA, Table tableL], dragging := True,
            dragRef := \<lparr>startX = 140, startY = 140, d_entity = None, origX = 0, origY = 0,
                        multiDrag = Some [\<lparr>m_type = TableT, m_id = 1, m_origX = 10, m_origY = 10\<rparr>,
                                          \<lparr>m_type = TableT, m_id = 2, m_origX = 20, m_origY = 10\<rparr>],
                        hasMoved = False\<rparr>\<rparr>"

definition pointerAt :: "real \<Rightarrow> real \<Rightarrow> mouseEvent" where
  "pointerAt px py = \<lparr>clientX = px, clientY = py, rectLeft = 0, rectTop = 0\<rparr>"

text \<open>
  Attendee 5 dragged from the roster and released over the canvas, with table 1 on top.
  Seat 0 of table 1, which attendee 3 occupies, is centred at pixel (140, 104.5).
\<close>

definition dropStateA :: state where
  "dropStateA = stateA\<lparr>tables := [tableL, tableA], dragging := True, dragAttendee := Some 5\<rparr>"

section \<open>Verified properties\<close>

section \<open>Grid snapping: verified properties\<close>

lemma snap_nearest:
  assumes "0 < g"
  shows "\<bar>of_int (round (v / g)) * g - v\<bar> \<le> g / 2"
proof -
  have "\<bar>of_int (round (v / g)) - v / g\<bar> \<le> 1 / 2" by (rule of_int_round_abs_le)
  then have "\<bar>of_int (round (v / g)) - v / g\<bar> * g \<le> 1 / 2 * g"
    using assms by (simp add: mult_right_mono)
  moreover have "\<bar>of_int (round (v / g)) - v / g\<bar> * g = \<bar>(of_int (round (v / g)) - v / g) * g\<bar>"
    using assms by (simp add: abs_mult)
  moreover have "(of_int (round (v / g)) - v / g) * g = of_int (round (v / g)) * g - v"
    using assms by (simp add: left_diff_distrib)
  ultimately show ?thesis by simp
qed

text \<open>
  C10.  When snapping is disabled (\<^verbatim>\<open>snapEnabled\<close> false) or \<^verbatim>\<open>gridSize <= 0\<close>, the entity
  snap function returns its raw input coordinates unchanged for every entity kind, and so
  does the scalar \<^verbatim>\<open>snap\<close>: grid snapping is the identity when disabled.
\<close>

theorem snap_disabled_identity:
  assumes "\<not> enabled \<or> grid \<le> 0"
  shows "snapEntityPos enabled grid rawX rawY ent = (rawX, rawY) \<and>
         snap enabled grid v = v"
  using assms by (auto simp: snapEntityPos_def snap_def)

theorem snap_disabled_identity_witness:
  "snapEntityPos False 1 (73 / 10) 4 (Venue venueA) = (73 / 10, 4) \<and>
   snapEntityPos True 0 (73 / 10) 4 (Table tableA) = (73 / 10, 4) \<and>
   snap True (- 1) (73 / 10) = 73 / 10"
proof -
  have h1: "\<not> False \<or> (1::real) \<le> 0" by simp
  have h2: "\<not> True \<or> (0::real) \<le> 0" by simp
  have h3: "\<not> True \<or> (- 1::real) \<le> 0" by simp
  from snap_disabled_identity[OF h1, of "73 / 10" 4 "Venue venueA"]
       snap_disabled_identity[OF h2, of "73 / 10" 4 "Table tableA"]
       snap_disabled_identity[OF h3, of 0 0 "Venue venueA" "73 / 10"]
  show ?thesis by simp
qed

text \<open>
  C5, as the code has it.  With snapping enabled and \<^verbatim>\<open>gridSize > 0\<close>: a round table and a
  chair block have their stored anchor (the table's centre, the block's top-left corner)
  rounded to the nearest multiple of \<^verbatim>\<open>gridSize\<close> on each axis; a rectangular table and a
  venue element are both snapped by their top-left corner: the centre is converted to the
  corner, the corner is rounded to the nearest multiple of \<^verbatim>\<open>gridSize\<close>, and the result is
  converted back to the centre.  The rounded value is within half a grid cell of its input.
\<close>

theorem snap_anchor_by_kind:
  assumes "enabled" and "0 < grid"
  shows "(tableType t = Round \<longrightarrow>
            snapEntityPos enabled grid rawX rawY (Table t) =
              (of_int (round (rawX / grid)) * grid,
               of_int (round (rawY / grid)) * grid)) \<and>
         snapEntityPos enabled grid rawX rawY (Block b) =
           (of_int (round (rawX / grid)) * grid,
            of_int (round (rawY / grid)) * grid) \<and>
         (tableType t = Rect \<longrightarrow>
            snapEntityPos enabled grid rawX rawY (Table t) =
              (of_int (round ((rawX - t_widthFt t / 2) / grid)) * grid + t_widthFt t / 2,
               of_int (round ((rawY - t_heightFt t / 2) / grid)) * grid + t_heightFt t / 2)) \<and>
         snapEntityPos enabled grid rawX rawY (Venue e) =
           (of_int (round ((rawX - v_widthFt e / 2) / grid)) * grid + v_widthFt e / 2,
            of_int (round ((rawY - v_heightFt e / 2) / grid)) * grid + v_heightFt e / 2) \<and>
         snap enabled grid v = of_int (round (v / grid)) * grid \<and>
         \<bar>snap enabled grid v - v\<bar> \<le> grid / 2"
proof -
  have "\<bar>snap enabled grid v - v\<bar> \<le> grid / 2"
    using assms snap_nearest[OF assms(2), of v] by (simp add: snap_def)
  then show ?thesis
    using assms by (cases "tableType t") (simp_all add: snapEntityPos_def snap_def Let_def)
qed

theorem snap_anchor_by_kind_witness:
  "snapEntityPos True 1 (73 / 10) 4 (Table tableA) = (7, 4) \<and>
   snapEntityPos True 1 (73 / 10) 4 (Block blockA) = (7, 4) \<and>
   snapEntityPos True 1 (73 / 10) 4 (Venue venueA) = (15 / 2, 9 / 2)"
proof -
  have h1: "True" and h2: "(0::real) < 1" by simp_all
  have r: "tableType tableA = Round" by (simp add: tableA_def)
  from snap_anchor_by_kind[OF h1 h2, of tableA "73 / 10" 4 blockA venueA 0] r
  show ?thesis by (simp add: tableA_def venueA_def round_def)
qed

text \<open>
  C5 as stated fails for venue elements: a 15 ft wide venue element dragged to x = 7.3 on
  a 1 ft grid is placed at 7.5 (its left edge on the grid line 0), whereas rounding its
  centre to the nearest multiple of the grid size would place it at 7.
\<close>

theorem venue_snaps_corner_counterexample:
  "snapEntityPos True 1 (73 / 10) 4 (Venue venueA) = (15 / 2, 9 / 2) \<and>
   (snap True 1 (73 / 10), snap True 1 4) = (7, 4)"
  by (simp add: snapEntityPos_def snap_def venueA_def round_def Let_def)

section \<open>Assignment model: verified properties\<close>

lemma swapAssignments_twice:
  "map_of (swapAssignments a b (swapAssignments a b al)) = map_of al"
  by (auto simp: swapAssignments_def update_conv' delete_conv' fun_upd_twist fun_upd_idem
      split: option.splits)

lemma swapIn_twice:
  "map (\<lambda>e. (e\<lparr>assignments := []\<rparr>, map_of (assignments e))) (swapIn i a b (swapIn i a b es)) =
   map (\<lambda>e. (e\<lparr>assignments := []\<rparr>, map_of (assignments e))) es"
  by (induction es) (simp_all add: swapIn_def swapAssignments_twice)

lemma tables_saveUndo [simp]: "tables (saveUndo st) = tables st"
  and chairBlocks_saveUndo [simp]: "chairBlocks (saveUndo st) = chairBlocks st"
  and disabled_saveUndo [simp]: "disabledAttendees (saveUndo st) = disabledAttendees st"
  by (simp_all add: saveUndo_def Let_def)



lemma vals_Cons: "vals (p # al) = vals al + {#snd p#}"
  by (simp add: vals_def)

lemma vals_Nil: "vals [] = {#}"
  by (simp add: vals_def)



lemma map_of_Some_in_vals: "map_of al k = Some v \<Longrightarrow> v \<in># vals al"
  by (induction al) (auto simp: vals_Cons vals_Nil split: if_splits)
















lemma ids_setSeat [simp]: "map e_id (setSeat i k v es) = map e_id es"
  by (induction es) (auto simp: setSeat_def)

lemma ids_clearSeat [simp]: "map e_id (clearSeat i k es) = map e_id es"
  by (induction es) (auto simp: clearSeat_def)

lemma ids_swapIn [simp]: "map e_id (swapIn i a b es) = map e_id es"
  by (induction es) (auto simp: swapIn_def)










lemma saveUndo_distinctIds: "distinctIds (saveUndo st) = distinctIds st"
  by (simp add: distinctIds_def)












text \<open>
  C9.  For any entity and any two seat keys A and B, \<^verbatim>\<open>swapSeats\<close> performed twice in
  succession restores the assignment map of every table and chair block (here paired with
  the entity's other fields, which the swap leaves alone); the statement has no
  hypothesis, so it covers both seats occupied, exactly one occupied, neither occupied,
  and A equal to B.
\<close>

theorem swap_twice_restores:
  "map (\<lambda>e. (e\<lparr>assignments := []\<rparr>, map_of (assignments e)))
       (tables (swapSeats p (swapSeats p st))) =
     map (\<lambda>e. (e\<lparr>assignments := []\<rparr>, map_of (assignments e))) (tables st) \<and>
   map (\<lambda>e. (e\<lparr>assignments := []\<rparr>, map_of (assignments e)))
       (chairBlocks (swapSeats p (swapSeats p st))) =
     map (\<lambda>e. (e\<lparr>assignments := []\<rparr>, map_of (assignments e))) (chairBlocks st)"
  by (cases p) (simp_all add: swapSeats_def Let_def swapIn_twice)





section \<open>Rotation: verified properties\<close>

text \<open>
  What the rotation computes from \<^verbatim>\<open>item\<close>.  When the selected item is the entity's current
  value and ids are unique, \<^verbatim>\<open>rotateSelected\<close> replaces the entity by the rotation computed
  from its own fields; for a round table with valid, distinct seat keys that rotation moves
  every assignment from seat \<open>k\<close> to seat \<open>(k + s) mod n\<close>, and for a chair block with valid,
  distinct seat keys it remaps every assigned seat \<open>(r, c)\<close> to \<open>(c, rows - 1 - r)\<close>.
\<close>

lemma unique_by_id:
  "distinct (map e_id es) \<Longrightarrow> t \<in> set es \<Longrightarrow> x \<in> set es \<Longrightarrow> e_id x = e_id t \<longleftrightarrow> x = t"
  by (auto simp: distinct_map inj_on_def)

lemma rotateSelected_round:
  assumes "selectedItem st = Some (Table t)" and "tableType t = Round"
    and "t \<in> set (tables st)" and "distinct (map e_id (tables st))"
  shows "tables (rotateSelected st) =
           map (\<lambda>x. if x = t then rotateSeats t t else x) (tables st)"
proof -
  have "map (\<lambda>x. if e_id x = e_id t then rotateSeats t x else x) (tables st) =
        map (\<lambda>x. if x = t then rotateSeats t t else x) (tables st)"
    by (rule map_cong[OF refl]) (simp add: unique_by_id[OF assms(4,3)])
  then show ?thesis using assms(1,2) by (simp add: rotateSelected_def Let_def)
qed

lemma rotateSelected_block:
  assumes "selectedItem st = Some (Block b)"
    and "b \<in> set (chairBlocks st)" and "distinct (map e_id (chairBlocks st))"
  shows "chairBlocks (rotateSelected st) =
           map (\<lambda>x. if x = b then rotateBlock b b else x) (chairBlocks st)"
proof -
  have "map (\<lambda>x. if e_id x = e_id b then rotateBlock b x else x) (chairBlocks st) =
        map (\<lambda>x. if x = b then rotateBlock b b else x) (chairBlocks st)"
    by (rule map_cong[OF refl]) (simp add: unique_by_id[OF assms(3,2)])
  then show ?thesis using assms(1) by (simp add: rotateSelected_def Let_def)
qed

lemma rotateSelected_block_again:
  assumes "selectedItem st = Some (Block b)"
  shows "chairBlocks (rotateSelected (rotateSelected st)) = chairBlocks (rotateSelected st)"
proof -
  have s: "selectedItem (rotateSelected st) = Some (Block b)"
    using assms by (simp add: rotateSelected_def Let_def saveUndo_def)
  have "chairBlocks (rotateSelected st') =
        map (\<lambda>x. if e_id x = e_id b then rotateBlock b x else x) (chairBlocks st')"
    if "selectedItem st' = Some (Block b)" for st'
    using that by (simp add: rotateSelected_def Let_def)
  from this[OF s] this[OF assms] show ?thesis
    by (simp add: rotateBlock_def comp_def)
qed

lemma update_fresh: "k \<notin> fst ` set al \<Longrightarrow> AList.update k v al = al @ [(k, v)]"
  by (induction al) auto

lemma foldl_update_fresh:
  "distinct (map fst (acc @ ys)) \<Longrightarrow>
   foldl (\<lambda>m (k, v). AList.update k v m) acc ys = acc @ ys"
proof (induction ys arbitrary: acc)
  case Nil
  show ?case by simp
next
  case (Cons p ys)
  obtain k v where p: "p = (k, v)" by (cases p)
  from Cons.prems p have fresh: "k \<notin> fst ` set acc" by auto
  have "distinct (map fst ((acc @ [(k, v)]) @ ys))" using Cons.prems p by auto
  from Cons.IH[OF this] show ?case using p fresh by (simp add: update_fresh)
qed

lemma map_of_map_keys_inj:
  "inj_on f (insert k (fst ` set xs)) \<Longrightarrow>
   map_of (map (\<lambda>(k, v). (f k, v)) xs) (f k) = map_of xs k"
proof (induction xs)
  case Nil
  show ?case by simp
next
  case (Cons p xs)
  obtain k' v where p: "p = (k', v)" by (cases p)
  have sub: "inj_on f (insert k (fst ` set xs))"
    using Cons.prems by (rule inj_on_subset) auto
  have "f k' = f k \<longleftrightarrow> k' = k"
    using Cons.prems p by (auto simp: inj_on_def)
  then show ?case using Cons.IH[OF sub] p by auto
qed

lemma shift_mod_inj_le:
  fixes n :: nat
  assumes "a \<le> b" "b < n" "(a + s) mod n = (b + s) mod n"
  shows "a = b"
proof -
  have "n dvd b - a"
    using mod_eq_dvd_iff_nat[of "a + s" "b + s" n] assms(1,3) by auto
  moreover have "b - a < n" using assms(2) by simp
  ultimately have "b - a = 0" using nat_dvd_not_less by fastforce
  with assms(1) show ?thesis by simp
qed

lemma shift_mod_inj:
  fixes n :: nat
  assumes "a < n" "b < n" "(a + s) mod n = (b + s) mod n"
  shows "a = b"
proof (cases "a \<le> b")
  case True
  then show ?thesis using assms(2,3) by (rule shift_mod_inj_le)
next
  case False
  then have "b \<le> a" by simp
  then have "b = a" using assms(1) assms(3)[symmetric] by (rule shift_mod_inj_le)
  then show ?thesis by simp
qed

lemma shift_mod_inj_on: "inj_on (\<lambda>k. (k + s) mod n) {..<n::nat}"
  by (rule inj_onI) (auto dest: shift_mod_inj)

lemma distinct_keys_sort: "distinct (map fst (sort_key fst al)) = distinct (map fst al)"
proof -
  have "mset (map fst (sort_key fst al)) = mset (map fst al)" by simp
  then show ?thesis by (rule mset_eq_imp_distinct_iff)
qed

lemma map_of_sort_key:
  "distinct (map fst al) \<Longrightarrow> map_of (sort_key fst al) = map_of al"
  by (simp add: map_of_inject_set distinct_keys_sort)

lemma seatsNewAssign_eq:
  assumes "0 < seats t" and "distinct (map fst (assignments t))" and "tableKeysValid t"
  shows "seatsNewAssign t =
           map (\<lambda>(k, v). ((k + (if 4 \<le> seats t then seats t div 4 else 1)) mod seats t, v))
             (entriesAscending (assignments t))"
proof -
  let ?s = "if 4 \<le> seats t then seats t div 4 else 1"
  let ?f = "\<lambda>k. (k + ?s) mod seats t"
  let ?xs = "entriesAscending (assignments t)"
  have keys: "fst ` set ?xs \<subseteq> {..<seats t}"
    using assms(3) by (auto simp: tableKeysValid_def entriesAscending_def list_all_iff)
  have d: "distinct (map fst ?xs)"
    using assms(2) by (simp add: entriesAscending_def distinct_keys_sort)
  have inj: "inj_on ?f (set (map fst ?xs))"
    using shift_mod_inj_on keys unfolding set_map by (rule inj_on_subset)
  have "distinct (map ?f (map fst ?xs))"
    by (rule distinct_map[THEN iffD2]) (intro conjI d inj)
  then have d': "distinct (map fst ([] @ map (\<lambda>(k, v). (?f k, v)) ?xs))"
    by (simp add: comp_def split_def)
  have "seatsNewAssign t =
          foldl (\<lambda>m (k, v). AList.update k v m) [] (map (\<lambda>(k, v). (?f k, v)) ?xs)"
    by (simp add: seatsNewAssign_def Let_def foldl_map split_def)
  also have "\<dots> = [] @ map (\<lambda>(k, v). (?f k, v)) ?xs"
    using d' by (rule foldl_update_fresh)
  finally show ?thesis by simp
qed


lemma rotateSeats_fresh_shifts:
  assumes "0 < seats t" and "distinct (map fst (assignments t))" and "tableKeysValid t"
  shows "(\<forall>k<seats t.
            map_of (assignments (rotateSeats t t))
              ((k + (if 4 \<le> seats t then seats t div 4 else 1)) mod seats t)
            = map_of (assignments t) k) \<and>
         (\<forall>j\<ge>seats t. map_of (assignments (rotateSeats t t)) j = None)"
proof -
  let ?s = "if 4 \<le> seats t then seats t div 4 else 1"
  let ?f = "\<lambda>k. (k + ?s) mod seats t"
  let ?xs = "entriesAscending (assignments t)"
  have keys: "fst ` set ?xs \<subseteq> {..<seats t}"
    using assms(3) by (auto simp: tableKeysValid_def entriesAscending_def list_all_iff)
  have mo: "map_of ?xs = map_of (assignments t)"
    using assms(2) by (simp add: entriesAscending_def map_of_sort_key)
  show ?thesis
  proof (cases "assignments t = []")
    case True
    then show ?thesis by (simp add: rotateSeats_def)
  next
    case False
    then have new: "assignments (rotateSeats t t) = map (\<lambda>(k, v). (?f k, v)) ?xs"
      using assms(1) seatsNewAssign_eq[OF assms] by (simp add: rotateSeats_def)
    have 1: "map_of (assignments (rotateSeats t t)) (?f k) = map_of (assignments t) k"
      if "k < seats t" for k
    proof -
      have "insert k (fst ` set ?xs) \<subseteq> {..<seats t}" using keys that by auto
      with shift_mod_inj_on have "inj_on ?f (insert k (fst ` set ?xs))" by (rule inj_on_subset)
      from map_of_map_keys_inj[OF this] show ?thesis using new mo by simp
    qed
    have 2: "map_of (assignments (rotateSeats t t)) j = None" if "seats t \<le> j" for j
    proof -
      have "?f k < seats t" for k using assms(1) by simp
      then have "\<forall>k. ?f k \<noteq> j" using that by (metis not_le)
      then have "j \<notin> fst ` set (assignments (rotateSeats t t))"
        unfolding new by (auto simp: image_iff split_def)
      then show ?thesis by (simp add: map_of_eq_None_iff)
    qed
    from 1 2 show ?thesis by blast
  qed
qed


lemma blockNewAssign_eq:
  assumes "blockKeysValid b" and "distinct (map fst (assignments b))"
  shows "blockNewAssign b =
           map (\<lambda>((r, c), v). ((c, rows b - 1 - r), v)) (assignments b)"
proof -
  let ?g = "\<lambda>p::(nat \<times> nat) \<times> nat. ((snd (fst p), rows b - 1 - fst (fst p)), snd p)"
  let ?al = "assignments b"
  have valid: "\<And>p. p \<in> set ?al \<Longrightarrow> fst (fst p) < rows b \<and> snd (fst p) < cols b"
    using assms(1) by (auto simp: blockKeysValid_def list_all_iff)
  have "blockNewAssign b = foldl (\<lambda>m p. AList.update (fst (?g p)) (snd (?g p)) m) [] ?al"
    unfolding blockNewAssign_def Let_def
  proof (rule foldl_cong)
    fix m and p :: "(nat \<times> nat) \<times> nat"
    assume "p \<in> set ?al"
    from valid[OF this] have r: "fst (fst p) < rows b" and c: "snd (fst p) < cols b" by simp_all
    have "nat (int (rows b) - 1 - int (fst (fst p))) = rows b - 1 - fst (fst p)" by simp
    moreover have "0 \<le> int (rows b) - 1 - int (fst (fst p))" using r by simp
    moreover have "int (rows b) - 1 - int (fst (fst p)) < int (rows b)" by simp
    ultimately show "(case p of
            (x, xa) \<Rightarrow>
              (case x of
               (r, c) \<Rightarrow>
                 \<lambda>att. if 0 \<le> int c \<and> int c < int (cols b) \<and>
                           0 \<le> int (rows b) - 1 - int r \<and>
                           int (rows b) - 1 - int r < int (rows b)
                        then AList.update (nat (int c), nat (int (rows b) - 1 - int r)) att m
                        else m)
               xa) =
          AList.update (fst (?g p)) (snd (?g p)) m"
      using c by (simp add: split_def)
  qed simp_all
  also have "\<dots> = foldl (\<lambda>m (k, v). AList.update k v m) [] (map ?g ?al)"
    by (simp add: foldl_map split_def)
  also have "\<dots> = [] @ map ?g ?al"
  proof (rule foldl_update_fresh)
    have inj: "inj_on (\<lambda>k::nat \<times> nat. (snd k, rows b - 1 - fst k)) (set (map fst ?al))"
    proof (rule inj_onI)
      fix k k' :: "nat \<times> nat"
      assume "k \<in> set (map fst ?al)" "k' \<in> set (map fst ?al)"
        and eq: "(snd k, rows b - 1 - fst k) = (snd k', rows b - 1 - fst k')"
      then have "fst k < rows b" "fst k' < rows b" using valid by auto
      with eq have "fst k = fst k'" "snd k = snd k'" by auto
      then show "k = k'" by (simp add: prod_eq_iff)
    qed
    have "distinct (map (\<lambda>k. (snd k, rows b - 1 - fst k)) (map fst ?al))"
      by (rule distinct_map[THEN iffD2]) (intro conjI assms(2) inj)
    then show "distinct (map fst ([] @ map ?g ?al))" by (simp add: comp_def)
  qed
  finally show ?thesis by (simp add: split_def)
qed


lemma selectedItem_rotateSelected: "selectedItem (rotateSelected st) = selectedItem st"
  by (simp add: rotateSelected_def saveUndo_def Let_def split: option.splits entity.splits)

lemma rotateSelected_four_times_blocks:
  assumes "selectedItem st = Some (Block b)"
  shows "chairBlocks (rotateSelected (rotateSelected (rotateSelected (rotateSelected st)))) =
         chairBlocks (rotateSelected st)"
proof -
  have s1: "selectedItem (rotateSelected st) = Some (Block b)"
    using assms by (simp add: selectedItem_rotateSelected)
  have s2: "selectedItem (rotateSelected (rotateSelected st)) = Some (Block b)"
    using s1 by (simp add: selectedItem_rotateSelected)
  from rotateSelected_block_again[OF s2] rotateSelected_block_again[OF s1]
       rotateSelected_block_again[OF assms]
  show ?thesis by simp
qed

text \<open>
  C7.  \<^verbatim>\<open>rotateSeats\<close> should move every assignment of a round table with \<open>n\<close> seats from
  seat \<open>k\<close> to seat \<open>(k + s) mod n\<close>; for \<open>n = 8\<close> the attendee of seat 0 should be at seat 2
  after one rotation.  \<^verbatim>\<open>rotateSelected\<close> computes the rotation from the entity value stored
  in \<^verbatim>\<open>selectedItem\<close> when the table was selected, which seat assignment never refreshes.
  Table 1 (8 seats) selected while empty, attendee 3 then seated on seat 0: the rotation
  leaves the table as it is, attendee 3 still on seat 0.  Table 1 selected while it held
  only attendee 3 on seat 0, attendee 5 then seated on seat 1: the rotation puts attendee
  3 on seat 2 and attendee 5 is no longer seated.
\<close>

theorem rotateSelected_stale_seats:
  "map (\<lambda>t. (e_id t, seats t, assignments t)) (tables staleSelectionA) =
     [(1, 8, [(0, 3)]), (2, 8, [])] \<and>
   map (\<lambda>t. (e_id t, seats t, assignments t)) (tables (rotateSelected staleSelectionA)) =
     [(1, 8, [(0, 3)]), (2, 8, [])] \<and>
   map (\<lambda>t. (e_id t, seats t, assignments t)) (tables staleSelectionB) =
     [(1, 8, [(0, 3), (1, 5)]), (2, 8, [])] \<and>
   map (\<lambda>t. (e_id t, seats t, assignments t)) (tables (rotateSelected staleSelectionB)) =
     [(1, 8, [(2, 3)]), (2, 8, [])]"
  by (simp add: rotateSelected_def rotateSeats_def seatsNewAssign_def entriesAscending_def
      saveUndo_def Let_def staleSelectionA_def staleSelectionB_def stateA_def tableA_def
      tableL_def)

text \<open>
  C8.  Four \<^verbatim>\<open>rotateBlock\<close> calls in succession on the same chair block should restore its
  rows, cols and assignment map.  \<^verbatim>\<open>rotateSelected\<close> computes each rotation from the block
  value stored in \<^verbatim>\<open>selectedItem\<close>, which the rotation does not refresh, so the second,
  third and fourth call repeat the first: the selected 2 by 3 block with seat \<open>(0, 0)\<close>
  assigned is 3 by 2 with seat \<open>(0, 1)\<close> assigned after four calls.
\<close>

theorem rotateSelected_four_times_not_restored:
  "selectedItem blockSelectionA = Some (Block blockA) \<and>
   map (\<lambda>b. (e_id b, rows b, cols b, assignments b)) (chairBlocks blockSelectionA) =
     [(1, 2, 3, [((0, 0), 4)])] \<and>
   map (\<lambda>b. (e_id b, rows b, cols b, assignments b))
     (chairBlocks (rotateSelected (rotateSelected (rotateSelected
        (rotateSelected blockSelectionA))))) =
     [(1, 3, 2, [((0, 1), 4)])]"
proof -
  have s: "selectedItem blockSelectionA = Some (Block blockA)"
    by (simp add: blockSelectionA_def)
  have c: "chairBlocks blockSelectionA = [blockA]"
    by (simp add: blockSelectionA_def stateA_def)
  have 1: "chairBlocks (rotateSelected blockSelectionA) = [rotateBlock blockA blockA]"
    using s c by (simp add: rotateSelected_def Let_def)
  have 2: "blockNewAssign blockA = [((0, 1), 4)]"
    by (simp add: blockNewAssign_def blockA_def Let_def)
  have 3: "e_id blockA = 1" "rows blockA = 2" "cols blockA = 3"
    "assignments blockA = [((0, 0), 4)]"
    by (simp_all add: blockA_def)
  show ?thesis
    by (simp add: rotateSelected_four_times_blocks[OF s] s c 1 2 3 rotateBlock_def)
qed

section \<open>Seat geometry: verified properties\<close>

lemma angle_step:
  "2 * pi * real (Suc i) / real n - pi / 2 = (2 * pi * real i / real n - pi / 2) + 2 * pi / real n"
  by (simp add: add_divide_distrib distrib_left)

lemma nth_roundSeatPositions:
  "i < seats t \<Longrightarrow> roundSeatPositions st t ! i = roundSeatPos st t i"
  by (simp add: roundSeatPositions_def)

text \<open>
  C6.  For every round table with \<open>n = seats > 0\<close>, the derived seat positions are exactly
  \<open>n\<close> points on a ring of radius table radius + seat radius + gap around the table's
  centre: seat \<open>i\<close> is at angle \<open>-90\<degree> + i * 360\<degree>/n\<close>, seat 0 is due north of the centre
  (the canvas y axis points down), every seat is at the ring's distance from the centre,
  and each seat is its predecessor turned about the centre through \<open>360\<degree>/n\<close> in the
  direction from the positive x axis to the positive y axis, which is clockwise on the
  canvas.  Coordinates are canvas pixels; numbers are reals.
\<close>

theorem round_seat_ring:
  assumes "0 < seats t"
  shows "length (roundSeatPositions st t) = seats t \<and>
         seatRingRadius st t =
           t_widthFt t * scale st / 2 + 3 / 4 * scale st + max 3 (scale st * (1 / 5)) \<and>
         roundSeatPositions st t ! 0 =
           (offsetX st + e_x t * scale st, offsetY st + e_y t * scale st - seatRingRadius st t) \<and>
         (\<forall>i<seats t.
            roundSeatPositions st t ! i =
              (offsetX st + e_x t * scale st +
                 seatRingRadius st t * cos (- (pi / 2) + real i * (2 * pi / real (seats t))),
               offsetY st + e_y t * scale st +
                 seatRingRadius st t * sin (- (pi / 2) + real i * (2 * pi / real (seats t)))) \<and>
            (fst (roundSeatPositions st t ! i) - (offsetX st + e_x t * scale st))\<^sup>2 +
            (snd (roundSeatPositions st t ! i) - (offsetY st + e_y t * scale st))\<^sup>2 =
              (seatRingRadius st t)\<^sup>2) \<and>
         (\<forall>i. Suc i < seats t \<longrightarrow>
            roundSeatPositions st t ! Suc i =
              (let cx = offsetX st + e_x t * scale st;
                   cy = offsetY st + e_y t * scale st;
                   px = fst (roundSeatPositions st t ! i) - cx;
                   py = snd (roundSeatPositions st t ! i) - cy;
                   th = 2 * pi / real (seats t)
               in (cx + (px * cos th - py * sin th), cy + (px * sin th + py * cos th))))"
proof -
  let ?cx = "offsetX st + e_x t * scale st"
  let ?cy = "offsetY st + e_y t * scale st"
  let ?d = "seatRingRadius st t"
  let ?a = "\<lambda>i. 2 * pi * real i / real (seats t) - pi / 2"
  have pos: "roundSeatPositions st t ! i = (?cx + ?d * cos (?a i), ?cy + ?d * sin (?a i))"
    if "i < seats t" for i
    using that by (simp add: nth_roundSeatPositions roundSeatPos_def Let_def)
  have len: "length (roundSeatPositions st t) = seats t"
    by (simp add: roundSeatPositions_def)
  have rad: "?d = t_widthFt t * scale st / 2 + 3 / 4 * scale st + max 3 (scale st * (1 / 5))"
    by (simp add: seatRingRadius_def Let_def)
  have north: "roundSeatPositions st t ! 0 = (?cx, ?cy - ?d)"
    using pos[OF assms] by simp
  have ang: "?a i = - (pi / 2) + real i * (2 * pi / real (seats t))" for i
    by simp
  have ring: "(fst (roundSeatPositions st t ! i) - ?cx)\<^sup>2 +
              (snd (roundSeatPositions st t ! i) - ?cy)\<^sup>2 = ?d\<^sup>2" if "i < seats t" for i
  proof -
    have "?d\<^sup>2 * (cos (?a i))\<^sup>2 + ?d\<^sup>2 * (sin (?a i))\<^sup>2 =
          ?d\<^sup>2 * ((cos (?a i))\<^sup>2 + (sin (?a i))\<^sup>2)"
      by (simp only: distrib_left)
    also have "\<dots> = ?d\<^sup>2" by (simp only: cos_squared_eq) simp
    finally show ?thesis using pos[OF that] by (simp add: power_mult_distrib)
  qed
  have step: "roundSeatPositions st t ! Suc i =
      (let cx = ?cx; cy = ?cy;
           px = fst (roundSeatPositions st t ! i) - cx;
           py = snd (roundSeatPositions st t ! i) - cy;
           th = 2 * pi / real (seats t)
       in (cx + (px * cos th - py * sin th), cy + (px * sin th + py * cos th)))"
    if "Suc i < seats t" for i
  proof -
    from that have i: "i < seats t" by simp
    have cs: "cos (?a (Suc i)) = cos (?a i) * cos (2 * pi / real (seats t)) -
                             sin (?a i) * sin (2 * pi / real (seats t))"
      unfolding angle_step by (rule cos_add)
    have sn: "sin (?a (Suc i)) = sin (?a i) * cos (2 * pi / real (seats t)) +
                             cos (?a i) * sin (2 * pi / real (seats t))"
      unfolding angle_step by (rule sin_add)
    show ?thesis
      apply (simp only: pos[OF that] pos[OF i] cs sn Let_def fst_conv snd_conv)
      apply (simp only: prod.inject add_diff_cancel_left' distrib_left right_diff_distrib mult.assoc)
      apply (simp only: add.commute simp_thms)
      done
  qed
  show ?thesis
    using len rad north pos ring step unfolding ang by blast
qed

lemma scale_stateA: "scale stateA = 10" and offsetX_stateA: "offsetX stateA = 40"
  and offsetY_stateA: "offsetY stateA = 40"
  by (simp_all add: offsetX_def offsetY_def scale_def stateA_def Let_def)

theorem round_seat_ring_witness:
  "0 < seats tableA \<and> length (roundSeatPositions stateA tableA) = 8 \<and>
   seatRingRadius stateA tableA = 71 / 2 \<and>
   roundSeatPositions stateA tableA ! 0 = (140, 209 / 2)"
proof -
  have h: "0 < seats tableA" by (simp add: tableA_def)
  have f: "seats tableA = 8" "e_x tableA = 10" "e_y tableA = 10" "t_widthFt tableA = 5"
    by (simp_all add: tableA_def)
  from round_seat_ring[OF h, of stateA] h show ?thesis
    by (simp add: f scale_stateA offsetX_stateA offsetY_stateA)
qed

section \<open>Pointer gestures: verified properties\<close>

lemma crossThreshold_within:
  "\<not> hasMoved (dragRef st) \<Longrightarrow> \<bar>dx\<bar> \<le> 1 / 2 \<Longrightarrow> \<bar>dy\<bar> \<le> 1 / 2 \<Longrightarrow> crossThreshold dx dy st = st"
  by (simp add: crossThreshold_def)

lemma crossThreshold_moved: "hasMoved (dragRef st) \<Longrightarrow> crossThreshold dx dy st = st"
  by (simp add: crossThreshold_def)

lemma crossThreshold_exceeds:
  "\<not> hasMoved (dragRef st) \<Longrightarrow> \<not> (\<bar>dx\<bar> \<le> 1 / 2 \<and> \<bar>dy\<bar> \<le> 1 / 2) \<Longrightarrow>
   crossThreshold dx dy st = (saveUndo st)\<lparr>dragRef := (dragRef st)\<lparr>hasMoved := True\<rparr>\<rparr>"
  by (auto simp: crossThreshold_def)

lemma move_within_noop:
  assumes "dragStart st" and "withinThreshold st ev"
  shows "handleCanvasMouseMove ev st = st"
proof -
  from assms(2) have w: "\<bar>pxToFt st (clientX ev - rectLeft ev - startX (dragRef st))\<bar> \<le> 1 / 2"
    "\<bar>pxToFt st (clientY ev - rectTop ev - startY (dragRef st))\<bar> \<le> 1 / 2"
    by (simp_all add: withinThreshold_def)
  from assms(1) show ?thesis
  proof (unfold dragStart_def, elim disjE conjE)
    assume m: "multiDragStart st"
    then obtain items where "multiDrag (dragRef st) = Some items" by (auto simp: multiDragStart_def)
    with m w show ?thesis
      by (simp add: handleCanvasMouseMove_def multiDragStart_def multiDragMove_def Let_def
          crossThreshold_within)
  next
    assume s: "singleDragStart st"
      and u: "case d_entity (dragRef st) of None \<Rightarrow> False | Some item \<Rightarrow> \<not> lockedOf item"
    then obtain item where "d_entity (dragRef st) = Some item" "\<not> lockedOf item"
      by (auto split: option.splits)
    with s w show ?thesis
      by (simp add: handleCanvasMouseMove_def singleDragStart_def singleDragMove_def Let_def
          crossThreshold_within)
  qed
qed

lemma moves_within_noop:
  "dragStart st \<Longrightarrow> list_all (withinThreshold st) pre \<Longrightarrow> moves pre st = st"
  unfolding moves_def by (induction pre) (simp_all add: move_within_noop)

lemma saveUndo_fields [simp]:
  "ghostEntity (saveUndo st) = ghostEntity st" "panRef (saveUndo st) = panRef st"
  "resizeRef (saveUndo st) = resizeRef st" "dragging (saveUndo st) = dragging st"
  "dragRef (saveUndo st) = dragRef st" "selectedItem (saveUndo st) = selectedItem st"
  by (simp_all add: saveUndo_def Let_def)

lemma move_exceeds:
  assumes "dragStart st" and "\<not> withinThreshold st ev"
  shows "undoStack (handleCanvasMouseMove ev st) = undoStack (saveUndo st) \<and>
         dragMoving (handleCanvasMouseMove ev st)"
proof -
  from assms(2) have w: "\<not> (\<bar>pxToFt st (clientX ev - rectLeft ev - startX (dragRef st))\<bar> \<le> 1 / 2 \<and>
    \<bar>pxToFt st (clientY ev - rectTop ev - startY (dragRef st))\<bar> \<le> 1 / 2)"
    by (simp add: withinThreshold_def)
  from assms(1) show ?thesis
  proof (unfold dragStart_def, elim disjE conjE)
    assume m: "multiDragStart st"
    then obtain items where "multiDrag (dragRef st) = Some items" by (auto simp: multiDragStart_def)
    with m show ?thesis
      by (simp add: handleCanvasMouseMove_def multiDragStart_def multiDragMove_def Let_def
          crossThreshold_exceeds[OF _ w] dragMoving_def)
  next
    assume s: "singleDragStart st"
      and u: "case d_entity (dragRef st) of None \<Rightarrow> False | Some item \<Rightarrow> \<not> lockedOf item"
    then obtain item where "d_entity (dragRef st) = Some item" "\<not> lockedOf item"
      by (auto split: option.splits)
    with s show ?thesis
      by (cases item)
         (simp_all add: handleCanvasMouseMove_def singleDragStart_def singleDragMove_def Let_def
          crossThreshold_exceeds[OF _ w] dragMoving_def)
  qed
qed

lemma move_after_crossing:
  assumes "dragMoving st"
  shows "undoStack (handleCanvasMouseMove ev st) = undoStack st \<and>
         dragMoving (handleCanvasMouseMove ev st)"
  using assms
  by (auto simp: handleCanvasMouseMove_def dragMoving_def multiDragMove_def singleDragMove_def
      Let_def crossThreshold_moved split: option.splits bool.splits entity.splits)

lemma moves_after_crossing:
  "dragMoving st \<Longrightarrow> undoStack (moves post st) = undoStack st"
  unfolding moves_def
proof (induction post arbitrary: st)
  case Nil
  show ?case by simp
next
  case (Cons ev post)
  from move_after_crossing[OF Cons.prems, of ev] Cons.IH[of "handleCanvasMouseMove ev st"]
  show ?case by simp
qed

lemma moves_append: "moves (xs @ ys) st = moves ys (moves xs st)"
  by (simp add: moves_def)

lemma moves_Cons: "moves (ev # ys) st = moves ys (handleCanvasMouseMove ev st)"
  by (simp add: moves_def)

lemma single_drag_locked_noop:
  assumes "ghostEntity st = None" "\<not> p_active (panRef st)" "resizeRef st = None"
    "multiDrag (dragRef st) = None" "d_entity (dragRef st) = Some item" "lockedOf item"
  shows "handleCanvasMouseMove ev st = st"
  using assms
  by (cases "dragging st"; cases "selectedItem st")
     (simp_all add: handleCanvasMouseMove_def singleDragMove_def Let_def)

text \<open>
  C4, as the code has it.  In a multi-entity drag, and in a single-entity drag of an entity
  that is not locked: while the pointer displacement from the drag start stays at or below
  0.5 ft on both axes the pointer moves change nothing (no entity position, no undo
  checkpoint); the first move whose displacement exceeds 0.5 ft on an axis captures one
  undo checkpoint, the snapshot of the state as it was before the drag, and no later move
  of the gesture captures another.
\<close>

theorem drag_threshold_checkpoint:
  assumes "dragStart st" and "list_all (withinThreshold st) pre" and "\<not> withinThreshold st ev"
  shows "moves pre st = st \<and>
         undoStack (moves (pre @ [ev]) st) = undoStack (saveUndo st) \<and>
         undoStack (moves (pre @ ev # post) st) = undoStack (saveUndo st) \<and>
         undoStack (saveUndo st) =
           (if length (undoStack st) \<ge> 50 then tl (undoStack st) @ [snapshotOf st]
            else undoStack st @ [snapshotOf st])"
proof -
  have 0: "undoStack (saveUndo st) =
           (if length (undoStack st) \<ge> 50 then tl (undoStack st) @ [snapshotOf st]
            else undoStack st @ [snapshotOf st])"
    by (cases "undoStack st") (simp_all add: saveUndo_def Let_def)
  have 1: "moves pre st = st" using assms(1,2) by (rule moves_within_noop)
  note 2 = move_exceeds[OF assms(1,3)]
  have 3: "undoStack (moves (pre @ [ev]) st) = undoStack (saveUndo st)"
    using 1 2 by (simp add: moves_append moves_Cons moves_def)
  have "undoStack (moves (pre @ ev # post) st) = undoStack (moves post (handleCanvasMouseMove ev st))"
    using 1 by (simp add: moves_append moves_Cons)
  also have "\<dots> = undoStack (handleCanvasMouseMove ev st)"
    using 2 by (intro moves_after_crossing) simp
  finally show ?thesis using 0 1 2 3 by simp
qed


lemma scale_dragStateA: "scale dragStateA = 10"
  by (simp add: scale_def dragStateA_def stateA_def Let_def)

theorem drag_threshold_checkpoint_witness:
  "dragStart dragStateA \<and>
   list_all (withinThreshold dragStateA) [pointerAt 143 140] \<and>
   \<not> withinThreshold dragStateA (pointerAt 150 140) \<and>
   moves [pointerAt 143 140] dragStateA = dragStateA \<and>
   undoStack (moves ([pointerAt 143 140] @ pointerAt 150 140 # [pointerAt 141 140]) dragStateA) =
     [snapshotOf dragStateA]"
proof -
  have st: "startX (dragRef dragStateA) = 140" "startY (dragRef dragStateA) = 140"
    "undoStack dragStateA = []"
    by (simp_all add: dragStateA_def stateA_def)
  have h1: "dragStart dragStateA"
    by (simp add: dragStart_def singleDragStart_def dragStateA_def stateA_def resetPanRef_def
        lockedOf_def tableA_def)
  have h2: "list_all (withinThreshold dragStateA) [pointerAt 143 140]"
    by (simp add: withinThreshold_def pxToFt_def scale_dragStateA st pointerAt_def)
  have h3: "\<not> withinThreshold dragStateA (pointerAt 150 140)"
    by (simp add: withinThreshold_def pxToFt_def scale_dragStateA st pointerAt_def)
  from drag_threshold_checkpoint[OF h1 h2 h3, of "[pointerAt 141 140]"] h1 h2 h3
  show ?thesis by (simp add: st)
qed

lemma scale_lockedDragStateA: "scale lockedDragStateA = 10"
  by (simp add: scale_def lockedDragStateA_def stateA_def Let_def)

text \<open>
  C4 as stated fails for the single-entity drag of a locked entity: the handler returns
  before the threshold test, so a displacement of 1 ft captures no undo checkpoint.
\<close>

theorem locked_drag_no_checkpoint_counterexample:
  "singleDragStart lockedDragStateA \<and>
   \<not> withinThreshold lockedDragStateA (pointerAt 250 140) \<and>
   undoStack lockedDragStateA = [] \<and>
   undoStack (moves [pointerAt 250 140] lockedDragStateA) = []"
proof -
  have st: "startX (dragRef lockedDragStateA) = 240" "startY (dragRef lockedDragStateA) = 140"
    "undoStack lockedDragStateA = []"
    by (simp_all add: lockedDragStateA_def stateA_def)
  have 1: "singleDragStart lockedDragStateA"
    by (simp add: singleDragStart_def lockedDragStateA_def stateA_def resetPanRef_def)
  have 2: "\<not> withinThreshold lockedDragStateA (pointerAt 250 140)"
    by (simp add: withinThreshold_def pxToFt_def scale_lockedDragStateA st pointerAt_def)
  have "handleCanvasMouseMove (pointerAt 250 140) lockedDragStateA = lockedDragStateA"
    by (rule single_drag_locked_noop[where item = "Table tableL"])
       (simp_all add: lockedDragStateA_def stateA_def resetPanRef_def lockedOf_def tableL_def)
  then show ?thesis using 1 2 st by (simp add: moves_def)
qed

lemma scale_multiDragStateA: "scale multiDragStateA = 10"
  by (simp add: scale_def multiDragStateA_def stateA_def Let_def)

text \<open>
  C3.  Locked entities never move: the single-entity branch returns at once for a locked
  entity (\<open>single_drag_locked_noop\<close>), but the multi-entity branch has no such test.  With
  tables 1 and 2 in the multi-selection and table 2 locked, a pointer move of 2 ft moves
  the locked table from x = 20 to x = 22.
\<close>

theorem multi_drag_moves_locked_table:
  "map (\<lambda>t. (e_id t, locked t, e_x t, e_y t)) (tables multiDragStateA) =
     [(1, False, 10, 10), (2, True, 20, 10)] \<and>
   map (\<lambda>t. (e_id t, locked t, e_x t, e_y t))
     (tables (handleCanvasMouseMove (pointerAt 160 140) multiDragStateA)) =
     [(1, False, 12, 10), (2, True, 22, 10)]"
proof -
  have st: "startX (dragRef multiDragStateA) = 140" "startY (dragRef multiDragStateA) = 140"
    "hasMoved (dragRef multiDragStateA) = False" "roomWidth multiDragStateA = 60"
    "roomHeight multiDragStateA = 40" "tables multiDragStateA = [tableA, tableL]"
    "ghostEntity multiDragStateA = None" "p_active (panRef multiDragStateA) = False"
    "resizeRef multiDragStateA = None" "dragging multiDragStateA = True"
    "multiDrag (dragRef multiDragStateA) =
       Some [\<lparr>m_type = TableT, m_id = 1, m_origX = 10, m_origY = 10\<rparr>,
             \<lparr>m_type = TableT, m_id = 2, m_origX = 20, m_origY = 10\<rparr>]"
    by (simp_all add: multiDragStateA_def stateA_def resetPanRef_def)
  show ?thesis
    by (simp add: handleCanvasMouseMove_def multiDragMove_def crossThreshold_def Let_def
        pxToFt_def scale_multiDragStateA st pointerAt_def updatesFor_def applyUpdates_def
        tableA_def tableL_def)
qed

section \<open>Dropping an attendee on the canvas: verified properties\<close>

lemma firstSeat_Some: "firstSeat f es = Some (e, k) \<Longrightarrow> e \<in> set es \<and> f e = Some k"
  by (induction es) (auto split: option.splits)

lemma seatHitTest_table:
  "seatHitTest x y st = Some (TableSeatHit t k) \<Longrightarrow> t \<in> set (tables st)"
  by (auto simp: seatHitTest_def split: option.splits dest!: firstSeat_Some)

lemma seatHitTest_block:
  "seatHitTest x y st = Some (BlockSeatHit b k) \<Longrightarrow> b \<in> set (chairBlocks st)"
  by (auto simp: seatHitTest_def split: option.splits dest!: firstSeat_Some)

lemma set_seatPairs:
  "set (seatPairs st) =
     (\<Union>t\<in>set (tables st). (\<lambda>p. (TableSeat (e_id t) (fst p), snd p)) ` set (assignments t)) \<union>
     (\<Union>b\<in>set (chairBlocks st). (\<lambda>p. (BlockSeat (e_id b) (fst p), snd p)) ` set (assignments b))"
  by (simp add: seatPairs_def split_def)

lemma seatPairs_mono:
  assumes "\<And>t. t \<in> set (tables st) \<Longrightarrow>
             \<exists>t'\<in>set (tables st'). e_id t' = e_id t \<and> set (assignments t) \<subseteq> set (assignments t')"
    and "\<And>b. b \<in> set (chairBlocks st) \<Longrightarrow>
             \<exists>b'\<in>set (chairBlocks st'). e_id b' = e_id b \<and> set (assignments b) \<subseteq> set (assignments b')"
  shows "set (seatPairs st) \<subseteq> set (seatPairs st')"
proof
  fix q assume "q \<in> set (seatPairs st)"
  then consider t p where "t \<in> set (tables st)" "p \<in> set (assignments t)"
      "q = (TableSeat (e_id t) (fst p), snd p)"
    | b p where "b \<in> set (chairBlocks st)" "p \<in> set (assignments b)"
      "q = (BlockSeat (e_id b) (fst p), snd p)"
    unfolding set_seatPairs by blast
  then show "q \<in> set (seatPairs st')"
  proof cases
    case 1
    from assms(1)[OF 1(1)] obtain t' where t': "t' \<in> set (tables st')" "e_id t' = e_id t"
      "set (assignments t) \<subseteq> set (assignments t')" by blast
    then have "p \<in> set (assignments t')" using 1(2) by blast
    then have "q \<in> (\<lambda>p. (TableSeat (e_id t') (fst p), snd p)) ` set (assignments t')"
      using 1(3) t'(2) by (intro image_eqI[of _ _ p]) simp_all
    with t'(1) show ?thesis unfolding set_seatPairs by blast
  next
    case 2
    from assms(2)[OF 2(1)] obtain b' where b': "b' \<in> set (chairBlocks st')" "e_id b' = e_id b"
      "set (assignments b) \<subseteq> set (assignments b')" by blast
    then have "p \<in> set (assignments b')" using 2(2) by blast
    then have "q \<in> (\<lambda>p. (BlockSeat (e_id b') (fst p), snd p)) ` set (assignments b')"
      using 2(3) b'(2) by (intro image_eqI[of _ _ p]) simp_all
    with b'(1) show ?thesis unfolding set_seatPairs by blast
  qed
qed

lemma update_fresh': "map_of al k = None \<Longrightarrow> AList.update k v al = al @ [(k, v)]"
  by (rule update_fresh) (simp add: map_of_eq_None_iff)

lemma setSeat_keeps:
  assumes "distinct (map e_id es)" and "ent \<in> set es" and "map_of (assignments ent) k = None"
    and "e \<in> set es"
  shows "\<exists>e'\<in>set (setSeat (e_id ent) k v es).
           e_id e' = e_id e \<and> set (assignments e) \<subseteq> set (assignments e')"
proof (cases "e_id e = e_id ent")
  case True
  with assms(1,2,4) have "e = ent" by (meson distinct_map inj_on_def)
  let ?e' = "ent\<lparr>assignments := AList.update k v (assignments ent)\<rparr>"
  have "?e' \<in> set (setSeat (e_id ent) k v es)"
    using assms(2) by (force simp: setSeat_def)
  moreover have "set (assignments ent) \<subseteq> set (assignments ?e')"
    using assms(3) by (auto simp: update_fresh')
  ultimately show ?thesis using \<open>e = ent\<close> by (intro bexI[of _ ?e']) simp_all
next
  case False
  then have "e \<in> set (setSeat (e_id ent) k v es)" using assms(4) by (force simp: setSeat_def)
  then show ?thesis by blast
qed


lemma keeps_refl: "e \<in> set es \<Longrightarrow> \<exists>e'\<in>set es. e_id e' = e_id e \<and> set (assignments e) \<subseteq> set (assignments e')"
  by blast

lemma assign_table_keeps:
  assumes "distinctIds st" and "t \<in> set (tables st)" and "map_of (assignments t) k = None"
  shows "set (seatPairs st) \<subseteq> set (seatPairs (assignAttendee (TableSeat (e_id t) k) att st)) \<and>
         set (seatPairs st) \<subseteq> set (seatPairs (forceAssignSeat (TableSeat (e_id t) k) att st))"
proof -
  have d: "distinct (map e_id (tables st))" using assms(1) by (simp add: distinctIds_def)
  have "set (seatPairs st) \<subseteq> set (seatPairs (st'\<lparr>tables := setSeat (e_id t) k att (tables st)\<rparr>))"
    if "chairBlocks st' = chairBlocks st" for st' :: state
  proof (rule seatPairs_mono)
    fix e assume "e \<in> set (tables st)"
    from setSeat_keeps[OF d assms(2,3) this, of att]
    show "\<exists>t'\<in>set (tables (st'\<lparr>tables := setSeat (e_id t) k att (tables st)\<rparr>)).
            e_id t' = e_id e \<and> set (assignments e) \<subseteq> set (assignments t')" by simp
  next
    fix e assume "e \<in> set (chairBlocks st)"
    then show "\<exists>b'\<in>set (chairBlocks (st'\<lparr>tables := setSeat (e_id t) k att (tables st)\<rparr>)).
            e_id b' = e_id e \<and> set (assignments e) \<subseteq> set (assignments b')"
      using that by (simp add: keeps_refl)
  qed
  note * = this[of "saveUndo st"]
  have 1: "seatPairs (s\<lparr>status := x\<rparr>) = seatPairs s" for s :: state and x
    by (simp add: seatPairs_def)
  show ?thesis using *
    by (auto simp: assignAttendee_def forceAssignSeat_def Let_def 1)
qed

lemma assign_block_keeps:
  assumes "distinctIds st" and "b \<in> set (chairBlocks st)" and "map_of (assignments b) k = None"
  shows "set (seatPairs st) \<subseteq> set (seatPairs (assignAttendee (BlockSeat (e_id b) k) att st)) \<and>
         set (seatPairs st) \<subseteq> set (seatPairs (forceAssignSeat (BlockSeat (e_id b) k) att st))"
proof -
  have d: "distinct (map e_id (chairBlocks st))" using assms(1) by (simp add: distinctIds_def)
  have "set (seatPairs st) \<subseteq> set (seatPairs (st'\<lparr>chairBlocks := setSeat (e_id b) k att (chairBlocks st)\<rparr>))"
    if "tables st' = tables st" for st' :: state
  proof (rule seatPairs_mono)
    fix e assume "e \<in> set (chairBlocks st)"
    from setSeat_keeps[OF d assms(2,3) this, of att]
    show "\<exists>b'\<in>set (chairBlocks (st'\<lparr>chairBlocks := setSeat (e_id b) k att (chairBlocks st)\<rparr>)).
            e_id b' = e_id e \<and> set (assignments e) \<subseteq> set (assignments b')" by simp
  next
    fix e assume "e \<in> set (tables st)"
    then show "\<exists>t'\<in>set (tables (st'\<lparr>chairBlocks := setSeat (e_id b) k att (chairBlocks st)\<rparr>)).
            e_id t' = e_id e \<and> set (assignments e) \<subseteq> set (assignments t')"
      using that by (simp add: keeps_refl)
  qed
  note * = this[of "saveUndo st"]
  have 1: "seatPairs (s\<lparr>status := x\<rparr>) = seatPairs s" for s :: state and x
    by (simp add: seatPairs_def)
  show ?thesis using *
    by (auto simp: assignAttendee_def forceAssignSeat_def Let_def 1)
qed

lemma assignNextAvailable_keeps:
  assumes "distinctIds st"
  shows "set (seatPairs st) \<subseteq> set (seatPairs (assignNextAvailable ty i att st))"
proof (cases "ty = TableT")
  case True
  show ?thesis
  proof (cases "find (\<lambda>t. e_id t = i) (tables st)")
    case None
    then show ?thesis using True by (simp add: assignNextAvailable_def)
  next
    case (Some ent)
    then have ent: "ent \<in> set (tables st)" "e_id ent = i"
      by (auto simp: find_Some_iff)
    show ?thesis
    proof (cases "find (\<lambda>k. map_of (assignments ent) k = None) [0..<getTableTotalSeats ent]")
      case None
      then show ?thesis using True Some by (simp add: assignNextAvailable_def seatPairs_def)
    next
      case (Some openKey)
      then have "map_of (assignments ent) openKey = None" by (auto simp: find_Some_iff)
      from assign_table_keeps[OF assms ent(1) this, of att]
      show ?thesis using True Some \<open>find (\<lambda>t. e_id t = i) (tables st) = Some ent\<close> ent(2)
        by (simp add: assignNextAvailable_def)
    qed
  qed
next
  case False
  show ?thesis
  proof (cases "find (\<lambda>b. e_id b = i) (chairBlocks st)")
    case None
    then show ?thesis using False by (simp add: assignNextAvailable_def)
  next
    case (Some ent)
    then have ent: "ent \<in> set (chairBlocks st)" "e_id ent = i"
      by (auto simp: find_Some_iff)
    show ?thesis
    proof (cases "find (\<lambda>k. map_of (assignments ent) k = None) (blockSeatKeys ent)")
      case None
      then show ?thesis using False Some by (simp add: assignNextAvailable_def seatPairs_def)
    next
      case (Some openKey)
      then have "map_of (assignments ent) openKey = None" by (auto simp: find_Some_iff)
      from assign_block_keeps[OF assms ent(1) this, of att]
      show ?thesis using False Some \<open>find (\<lambda>b. e_id b = i) (chairBlocks st) = Some ent\<close> ent(2)
        by (simp add: assignNextAvailable_def)
    qed
  qed
qed

lemma dropAttendee_keeps:
  assumes "distinctIds st"
  shows "set (seatPairs st) \<subseteq> set (seatPairs (dropAttendee x y att st))"
proof -
  let ?fallback = "case hitTest x y st of
               Some (Table t) \<Rightarrow> assignNextAvailable TableT (e_id t) att st
             | Some (Block b) \<Rightarrow> assignNextAvailable BlockT (e_id b) att st
             | _ \<Rightarrow> st"
  have fb: "set (seatPairs st) \<subseteq> set (seatPairs ?fallback)"
    by (auto simp: assignNextAvailable_keeps[OF assms, THEN subsetD] split: option.splits entity.splits)
  show ?thesis
  proof (cases "seatHitTest x y st")
    case None
    then show ?thesis using fb by (simp add: dropAttendee_def)
  next
    case (Some h)
    show ?thesis
    proof (cases h)
      case (TableSeatHit t k)
      with Some have t: "t \<in> set (tables st)" by (auto dest: seatHitTest_table)
      show ?thesis
      proof (cases "map_of (assignments t) k = None")
        case True
        from assign_table_keeps[OF assms t True, of att] show ?thesis
          using Some TableSeatHit True by (simp add: dropAttendee_def)
      next
        case False
        then show ?thesis using Some TableSeatHit fb by (auto simp: dropAttendee_def)
      qed
    next
      case (BlockSeatHit b k)
      with Some have b: "b \<in> set (chairBlocks st)" by (auto dest: seatHitTest_block)
      show ?thesis
      proof (cases "map_of (assignments b) k = None")
        case True
        from assign_block_keeps[OF assms b True, of att] show ?thesis
          using Some BlockSeatHit True by (simp add: dropAttendee_def)
      next
        case False
        then show ?thesis using Some BlockSeatHit fb by (auto simp: dropAttendee_def)
      qed
    qed
  qed
qed

lemma hypot_zero: "hypot 0 b = \<bar>b\<bar>" "hypot a 0 = \<bar>a\<bar>"
  by (simp_all add: hypot_def)

lemma dropStateA_view:
  "scale dropStateA = 10" "offsetX dropStateA = 40" "offsetY dropStateA = 40"
  "tables dropStateA = [tableL, tableA]" "chairBlocks dropStateA = [blockA]"
  "disabledAttendees dropStateA = {}" "dragAttendee dropStateA = Some 5"
  "p_active (panRef dropStateA) = False"
  by (simp_all add: offsetX_def offsetY_def scale_def dropStateA_def stateA_def Let_def
      resetPanRef_def)

lemma seat0_tableA: "roundSeatPos dropStateA tableA 0 = (140, 209 / 2)"
  by (simp add: roundSeatPos_def seatRingRadius_def dropStateA_view tableA_def Let_def)

lemma seatHit_dropStateA: "seatHitTest 140 (209 / 2) dropStateA = Some (TableSeatHit tableA 0)"
proof -
  have "tableSeatAt 140 (209 / 2) dropStateA tableA = Some 0"
  proof -
    have s: "seats tableA = 8" "tableType tableA = Round" by (simp_all add: tableA_def)
    have u: "[0..<8] = 0 # [1..<8]" by (simp add: upt_conv_Cons)
    show ?thesis
      by (simp add: tableSeatAt_def Let_def s u seat0_tableA hypot_zero dropStateA_view)
  qed
  then show ?thesis by (simp add: seatHitTest_def dropStateA_view)
qed

lemma hit_dropStateA: "hitTest 140 (209 / 2) dropStateA = Some (Table tableA)"
proof -
  have "tableHit 140 (209 / 2) dropStateA tableA"
    by (simp add: tableHit_def Let_def dropStateA_view hypot_zero tableA_def)
  then show ?thesis by (simp add: hitTest_def dropStateA_view)
qed

lemma pairs_after_drop: "seatPairs (handleCanvasMouseUp (pointerAt 140 (209 / 2)) dropStateA) =
   [(TableSeat 1 0, 3), (TableSeat 1 1, 5), (BlockSeat 1 (0, 0), 4)]"
proof -
  have a: "map_of (assignments tableA) 0 = Some 3" "e_id tableL = 2"
    "assignments tableA = [(0, 3)]" "assignments tableL = []" "getTableTotalSeats tableA = 8"
    "assignments blockA = [((0, 0), 4)]" "e_id blockA = 1"
    by (simp_all add: tableA_def tableL_def blockA_def getTableTotalSeats_def)
  have i: "e_id tableA = 1" by (simp add: tableA_def)
  have u: "[0..<8] = 0 # 1 # [2..<8]" by (simp add: upt_conv_Cons)
  have n: "assignNextAvailable TableT (e_id tableA) 5 dropStateA =
           forceAssignSeat (TableSeat (e_id tableA) 1) 5 dropStateA"
    by (simp add: assignNextAvailable_def assigned_def buildAssignedSet_def dropStateA_view a i u)
  have d: "dropAttendee 140 (209 / 2) 5 dropStateA =
           forceAssignSeat (TableSeat (e_id tableA) 1) 5 dropStateA"
    by (simp add: dropAttendee_def seatHit_dropStateA hit_dropStateA a n)
  show ?thesis
    by (simp add: handleCanvasMouseUp_def Let_def pointerAt_def dropStateA_view d
        forceAssignSeat_def seatPairs_def setSeat_def a i)
qed

text \<open>
  C2, as the code has it.  The non-forcing assign operation is a no-op when the attendee is
  disabled, and a no-op reporting \<^verbatim>\<open>'Already assigned'\<close> when the attendee is already seated;
  it does not test whether the target seat is occupied.  Occupied seats are protected by
  the canvas drop handler, which calls it only for a seat key absent from the hit entity's
  assignments and otherwise falls back to the next open seat of the entity under the
  pointer: provided entity ids are unique within each kind, releasing a dragged
  attendee over the canvas leaves every occupied seat with its occupant.
\<close>

theorem drop_never_overwrites:
  assumes "distinctIds st" and "\<not> p_active (panRef st)" and "dragAttendee st = Some att"
  shows "set (seatPairs st) \<subseteq> set (seatPairs (handleCanvasMouseUp ev st)) \<and>
         (a \<in> disabledAttendees st \<longrightarrow> assignAttendee addr a st = st) \<and>
         (a \<notin> disabledAttendees st \<and> a \<in> assigned st \<longrightarrow>
            assignAttendee addr a st = st\<lparr>status := ''Already assigned''\<rparr>)"
proof -
  have "seatPairs (handleCanvasMouseUp ev st) =
        seatPairs (dropAttendee (clientX ev - rectLeft ev) (clientY ev - rectTop ev) att st)"
    using assms(2,3) by (simp add: handleCanvasMouseUp_def Let_def seatPairs_def)
  then show ?thesis using dropAttendee_keeps[OF assms(1)]
    by (simp add: assignAttendee_def)
qed


theorem drop_never_overwrites_witness:
  "distinctIds dropStateA \<and> \<not> p_active (panRef dropStateA) \<and> dragAttendee dropStateA = Some 5 \<and>
   seatHitTest 140 (209 / 2) dropStateA = Some (TableSeatHit tableA 0) \<and>
   map_of (assignments tableA) 0 = Some 3 \<and>
   set (seatPairs dropStateA) \<subseteq>
     set (seatPairs (handleCanvasMouseUp (pointerAt 140 (209 / 2)) dropStateA)) \<and>
   seatPairs (handleCanvasMouseUp (pointerAt 140 (209 / 2)) dropStateA) =
     [(TableSeat 1 0, 3), (TableSeat 1 1, 5), (BlockSeat 1 (0, 0), 4)]"
proof -
  have h1: "distinctIds dropStateA"
    by (simp add: distinctIds_def dropStateA_view tableA_def tableL_def)
  have h2: "\<not> p_active (panRef dropStateA)" by (simp add: dropStateA_view)
  have h3: "dragAttendee dropStateA = Some 5" by (simp add: dropStateA_view)
  have o: "map_of (assignments tableA) 0 = Some 3" by (simp add: tableA_def)
  from drop_never_overwrites[OF h1 h2 h3, of "pointerAt 140 (209 / 2)" 0 "TableSeat 1 0"]
  have "set (seatPairs dropStateA) \<subseteq>
          set (seatPairs (handleCanvasMouseUp (pointerAt 140 (209 / 2)) dropStateA))"
    by (rule conjunct1)
  with h1 h2 h3 o seatHit_dropStateA pairs_after_drop show ?thesis by simp
qed

text \<open>
  C2 as stated fails: \<^verbatim>\<open>assignAttendee\<close> called on seat 0 of table 1, which attendee 3
  occupies, with the unseated attendee 5 stores attendee 5 there and reports
  \<^verbatim>\<open>'Assigned'\<close>.
\<close>

theorem assign_overwrites_occupied_counterexample:
  "tables stateA = [tableA, tableL] \<and> map_of (assignments tableA) 0 = Some 3 \<and>
   map assignments (tables (assignAttendee (TableSeat 1 0) 5 stateA)) = [[(0, 5)], []] \<and>
   status (assignAttendee (TableSeat 1 0) 5 stateA) = ''Assigned''"
  by (simp add: assignAttendee_def assigned_def buildAssignedSet_def saveUndo_def Let_def
      setSeat_def stateA_def tableA_def tableL_def blockA_def)

end
